theory Spec2Isabelle
  imports Complex_Main "HOL-Library.AList"
begin

section \<open>Python values used by the two parsers\<close>

text \<open>
  The repository holds two scripts, \<^verbatim>\<open>parse_strategy_p0.py\<close> and
  \<^verbatim>\<open>parse_strategy_p1.py\<close>. Each defines \<^verbatim>\<open>parse_strategy_file\<close>, which reads
  a strategy dump, keeps the record lines of one player, stores their probability
  vectors in a dictionary of dictionaries and composes a table of path probabilities.

  Text is modelled as \<^typ>\<open>string\<close>, one \<^typ>\<open>char\<close> per code point, which covers the
  code points below 256. The file is given as the list that \<^verbatim>\<open>f.readlines()\<close>
  returns. Exceptions are values of type \<open>error\<close>; a run that raises returns \<open>Inl\<close>.
\<close>

datatype error = ValueError | IndexError | KeyError

subsection \<open>Floats\<close>

text \<open>
  A Python float is a finite number, an infinity or a NaN. Finite floats are modelled
  by the real number they stand for: rounding to 53 bits and overflow of finite
  products are not modelled, so a product of two finite floats is the exact product.
  The special values follow IEEE 754, as Python's \<^verbatim>\<open>*\<close> and \<^verbatim>\<open>>=\<close> do: zero times an
  infinity is NaN, and no comparison with NaN holds. The integers \<^verbatim>\<open>0\<close> and \<^verbatim>\<open>1\<close>
  of the default vectors are \<open>Fin 0\<close> and \<open>Fin 1\<close>, which is what they become when
  they are multiplied with a float or stored into the \<^verbatim>\<open>numpy\<close> array.
\<close>

datatype pyfloat = Fin real | PInf | NInf | NaN

definition inf_times :: "real \<Rightarrow> pyfloat" where
  "inf_times x = (if x = 0 then NaN else if 0 < x then PInf else NInf)"

fun fneg :: "pyfloat \<Rightarrow> pyfloat" where
  "fneg (Fin x) = Fin (- x)"
| "fneg PInf = NInf"
| "fneg NInf = PInf"
| "fneg NaN = NaN"

fun fmul :: "pyfloat \<Rightarrow> pyfloat \<Rightarrow> pyfloat" where
  "fmul (Fin x) (Fin y) = Fin (x * y)"
| "fmul (Fin x) PInf = inf_times x"
| "fmul (Fin x) NInf = fneg (inf_times x)"
| "fmul PInf (Fin y) = inf_times y"
| "fmul NInf (Fin y) = fneg (inf_times y)"
| "fmul PInf PInf = PInf"
| "fmul PInf NInf = NInf"
| "fmul NInf PInf = NInf"
| "fmul NInf NInf = PInf"
| "fmul NaN y = NaN"
| "fmul x NaN = NaN"

text \<open>\<^verbatim>\<open>x >= 0\<close> on floats.\<close>

fun fnonneg :: "pyfloat \<Rightarrow> bool" where
  "fnonneg (Fin x) = (0 \<le> x)"
| "fnonneg PInf = True"
| "fnonneg NInf = False"
| "fnonneg NaN = False"

text \<open>\<^verbatim>\<open>math.isfinite(x) and x >= 0\<close>.\<close>

fun finite_nonneg :: "pyfloat \<Rightarrow> bool" where
  "finite_nonneg (Fin x) = (0 \<le> x)"
| "finite_nonneg PInf = False"
| "finite_nonneg NInf = False"
| "finite_nonneg NaN = False"

subsection \<open>String methods\<close>

definition tab :: char where
  "tab = CHR 0x09"

definition newline :: char where
  "newline = CHR 0x0A"

text \<open>\<^verbatim>\<open>str.isspace\<close> on one character, for the code points below 256.\<close>

definition isspace :: "char \<Rightarrow> bool" where
  "isspace c = (let n = (of_char c :: nat) in
     (9 \<le> n \<and> n \<le> 13) \<or> (28 \<le> n \<and> n \<le> 32) \<or> n = 133 \<or> n = 160)"

definition lstrip :: "string \<Rightarrow> string" where
  "lstrip s = dropWhile isspace s"

definition rstrip :: "string \<Rightarrow> string" where
  "rstrip s = rev (dropWhile isspace (rev s))"

text \<open>\<^verbatim>\<open>s.strip()\<close>\<close>

definition strip :: "string \<Rightarrow> string" where
  "strip s = lstrip (rstrip s)"

text \<open>\<^verbatim>\<open>s.startswith(p)\<close>\<close>

definition startswith :: "string \<Rightarrow> string \<Rightarrow> bool" where
  "startswith s p = (take (length p) s = p)"

text \<open>
  \<^verbatim>\<open>s.split(sep)\<close> for a non-empty separator: the pieces between the leftmost
  non-overlapping occurrences of \<open>sep\<close>; the result is never empty. \<open>find_sep\<close>
  returns the text before and after the first occurrence. (Python raises on an empty
  separator; the scripts only pass literals, none of them empty.)
\<close>

fun find_sep :: "string \<Rightarrow> string \<Rightarrow> (string \<times> string) option" where
  "find_sep sep [] = None"
| "find_sep sep (c # cs) =
     (if startswith (c # cs) sep then Some ([], drop (length sep) (c # cs))
      else (case find_sep sep cs of
              None \<Rightarrow> None
            | Some (before, after) \<Rightarrow> Some (c # before, after)))"

lemma find_sep_shorter:
  "find_sep sep s = Some (b, a) \<Longrightarrow> sep \<noteq> [] \<Longrightarrow> length a < length s"
proof (induction s arbitrary: b a)
  case Nil
  then show ?case by simp
next
  case (Cons c cs)
  show ?case
  proof (cases "startswith (c # cs) sep")
    case True
    with Cons.prems show ?thesis by auto
  next
    case False
    with Cons.prems obtain b' where "find_sep sep cs = Some (b', a)"
      by (auto split: option.splits)
    with Cons.IH Cons.prems(2) show ?thesis by fastforce
  qed
qed

function split_sep :: "string \<Rightarrow> string \<Rightarrow> string list" where
  "split_sep sep s =
     (if sep = [] then [s]
      else (case find_sep sep s of
              None \<Rightarrow> [s]
            | Some (before, after) \<Rightarrow> before # split_sep sep after))"
  by pat_completeness auto
termination
  by (relation "measure (\<lambda>(sep, s). length s)") (auto dest: find_sep_shorter)

declare split_sep.simps [simp del]

text \<open>
  \<^verbatim>\<open>s.split()\<close> with no argument: the maximal runs of non-whitespace characters.
  \<open>split_ws_go\<close> carries the token being read, reversed.
\<close>

fun split_ws_go :: "string \<Rightarrow> string \<Rightarrow> string list" where
  "split_ws_go tok [] = (if tok = [] then [] else [rev tok])"
| "split_ws_go tok (c # cs) =
     (if isspace c then (if tok = [] then split_ws_go [] cs else rev tok # split_ws_go [] cs)
      else split_ws_go (c # tok) cs)"

definition split_ws :: "string \<Rightarrow> string list" where
  "split_ws s = split_ws_go [] s"

text \<open>\<^verbatim>\<open>sep.join(xs)\<close>\<close>

fun join :: "string \<Rightarrow> string list \<Rightarrow> string" where
  "join sep [] = []"
| "join sep [x] = x"
| "join sep (x # y # ys) = x @ sep @ join sep (y # ys)"

text \<open>\<^verbatim>\<open>s.index(sub)\<close>: the least position where \<open>sub\<close> starts, ValueError if none.\<close>

fun str_index_from :: "nat \<Rightarrow> string \<Rightarrow> string \<Rightarrow> error + nat" where
  "str_index_from i [] sub = (if sub = [] then Inr i else Inl ValueError)"
| "str_index_from i (c # cs) sub =
     (if startswith (c # cs) sub then Inr i else str_index_from (Suc i) cs sub)"

definition str_index :: "string \<Rightarrow> string \<Rightarrow> error + nat" where
  "str_index s sub = str_index_from 0 s sub"

subsection \<open>Lists, dictionaries and exceptions\<close>

text \<open>\<^verbatim>\<open>xs[i]\<close> for \<open>i \<ge> 0\<close>: IndexError out of range.\<close>

definition item :: "'a list \<Rightarrow> nat \<Rightarrow> error + 'a" where
  "item xs i = (if i < length xs then Inr (xs ! i) else Inl IndexError)"

text \<open>Sequencing: the first exception ends the computation.\<close>

definition and_then :: "error + 'a \<Rightarrow> ('a \<Rightarrow> error + 'b) \<Rightarrow> error + 'b" where
  "and_then m f = (case m of Inl e \<Rightarrow> Inl e | Inr x \<Rightarrow> f x)"

text \<open>A list comprehension or loop whose body may raise.\<close>

fun map_err :: "('a \<Rightarrow> error + 'b) \<Rightarrow> 'a list \<Rightarrow> error + 'b list" where
  "map_err f [] = Inr []"
| "map_err f (x # xs) =
     (case f x of
        Inl e \<Rightarrow> Inl e
      | Inr y \<Rightarrow> (case map_err f xs of Inl e \<Rightarrow> Inl e | Inr ys \<Rightarrow> Inr (y # ys)))"

text \<open>
  A \<^verbatim>\<open>dict\<close> is an association list with distinct keys in insertion order:
  \<^term>\<open>map_of\<close> reads it and \<^term>\<open>AList.update\<close> writes it (a new key goes to the
  end, an old key keeps its place). \<^verbatim>\<open>d.get(k, default)\<close>:
\<close>

definition dict_get :: "('k \<times> 'v) list \<Rightarrow> 'k \<Rightarrow> 'v \<Rightarrow> 'v" where
  "dict_get d k dflt = (case map_of d k of None \<Rightarrow> dflt | Some v \<Rightarrow> v)"

subsection \<open>The builtin \<^verbatim>\<open>float\<close> on strings\<close>

text \<open>
  The definitions of the parsers take the conversion \<^verbatim>\<open>float(p)\<close> as a parameter
  \<open>flt\<close>, with \<open>None\<close> for the ValueError of a string that is no float literal, so the
  general theorems hold of every conversion. \<open>py_float\<close> is the conversion itself, for
  the evaluation of concrete files: surrounding whitespace is dropped, then an optional
  sign, and \<^verbatim>\<open>inf\<close>, \<^verbatim>\<open>infinity\<close> or \<^verbatim>\<open>nan\<close> in any case, or a decimal number
  with optional fraction and exponent, whose digit groups may be separated by single
  underscores. The value of a number is exact (see the note on rounding above).
\<close>

definition is_digit :: "char \<Rightarrow> bool" where
  "is_digit c = (48 \<le> (of_char c :: nat) \<and> (of_char c :: nat) \<le> 57)"

definition digit_val :: "char \<Rightarrow> nat" where
  "digit_val c = of_char c - 48"

definition to_lower :: "char \<Rightarrow> char" where
  "to_lower c = (let n = (of_char c :: nat) in if 65 \<le> n \<and> n \<le> 90 then char_of (n + 32) else c)"

text \<open>
  The longest \<^verbatim>\<open>digitpart\<close> at the head of a string: its value, its number of digits
  (0 when there is none) and the rest of the string.
\<close>

fun digitpart :: "nat \<Rightarrow> nat \<Rightarrow> string \<Rightarrow> nat \<times> nat \<times> string" where
  "digitpart v n [] = (v, n, [])"
| "digitpart v n (c # cs) =
     (if is_digit c then digitpart (10 * v + digit_val c) (Suc n) cs
      else if c = CHR ''_'' \<and> 0 < n \<and> (case cs of [] \<Rightarrow> False | d # _ \<Rightarrow> is_digit d)
        then digitpart v n cs
      else (v, n, c # cs))"

definition take_sign :: "string \<Rightarrow> bool \<times> string" where
  "take_sign s =
     (case s of
        [] \<Rightarrow> (False, [])
      | c # cs \<Rightarrow> if c = CHR ''-'' then (True, cs) else if c = CHR ''+'' then (False, cs)
                 else (False, s))"

definition decimal :: "string \<Rightarrow> real option" where
  "decimal u =
     (case digitpart 0 0 u of (i, ni, r1) \<Rightarrow>
      (case (case r1 of
               [] \<Rightarrow> (0, 0, [])
             | c # cs \<Rightarrow> if c = CHR ''.'' then digitpart 0 0 cs else (0, 0, r1)) of
         (f, nf, r2) \<Rightarrow>
           if ni + nf = 0 then None
           else (let m = (real i * 10 ^ nf + real f) / 10 ^ nf in
                 case r2 of
                   [] \<Rightarrow> Some m
                 | c # cs \<Rightarrow>
                     if c = CHR ''e'' \<or> c = CHR ''E'' then
                       (case take_sign cs of (eneg, ds) \<Rightarrow>
                        (case digitpart 0 0 ds of (e, ne, r3) \<Rightarrow>
                           if ne = 0 \<or> r3 \<noteq> [] then None
                           else Some (if eneg then m / 10 ^ e else m * 10 ^ e)))
                     else None)))"

definition py_float :: "string \<Rightarrow> pyfloat option" where
  "py_float s =
     (case take_sign (strip s) of (neg, u) \<Rightarrow>
        (let low = map to_lower u in
         if low = ''inf'' \<or> low = ''infinity'' then Some (if neg then NInf else PInf)
         else if low = ''nan'' then Some NaN
         else (case decimal u of
                 None \<Rightarrow> None
               | Some r \<Rightarrow> Some (Fin (if neg then - r else r)))))"

section \<open>Reading the records of one player\<close>

text \<open>
  Lines 6 to 42 of both scripts are the same up to the player's number and the way the
  dictionary key is built from the action list. They are modelled once, with the section
  marker (\<^verbatim>\<open>"PLAYER: 0"\<close>), the record tag (\<^verbatim>\<open>"[Player: 0"\<close>) and the key
  construction as parameters.
\<close>

type_synonym card_data = "(string \<times> pyfloat list) list"
type_synonym strategies = "(string \<times> card_data) list"

text \<open>
  The first loop: the stripped non-empty lines between a line that strips to the marker
  and a line that strips to \<^verbatim>\<open>END\<close>. The flag is \<^verbatim>\<open>in_player_0\<close> (\<^verbatim>\<open>in_player_1\<close>).
\<close>

fun player_lines :: "string \<Rightarrow> bool \<Rightarrow> string list \<Rightarrow> string list" where
  "player_lines marker in_player [] = []"
| "player_lines marker in_player (line # lines) =
     (if strip line = marker then player_lines marker True lines
      else if strip line = ''END'' then player_lines marker False lines
      else if in_player \<and> strip line \<noteq> [] then strip line # player_lines marker in_player lines
      else player_lines marker in_player lines)"

text \<open>The value of the flag after a prefix of the file.\<close>

fun in_player_after :: "string \<Rightarrow> bool \<Rightarrow> string list \<Rightarrow> bool" where
  "in_player_after marker in_player [] = in_player"
| "in_player_after marker in_player (line # lines) =
     (if strip line = marker then in_player_after marker True lines
      else if strip line = ''END'' then in_player_after marker False lines
      else in_player_after marker in_player lines)"

text \<open>
  The dictionary key. In \<^verbatim>\<open>parse_strategy_p0.py\<close> it is built from the first two
  actions when there are exactly two and from the first three otherwise (IndexError
  when there is only one); in \<^verbatim>\<open>parse_strategy_p1.py\<close> the actions are joined.
\<close>

definition key_p0 :: "string \<Rightarrow> string list \<Rightarrow> error + string" where
  "key_p0 history actions =
     (if length actions = 2 then
        and_then (item actions 0) (\<lambda>a0.
        and_then (item actions 1) (\<lambda>a1.
        Inr (history @ ''|'' @ a0 @ '','' @ a1)))
      else
        and_then (item actions 0) (\<lambda>a0.
        and_then (item actions 1) (\<lambda>a1.
        and_then (item actions 2) (\<lambda>a2.
        Inr (history @ ''|'' @ a0 @ '','' @ a1 @ '','' @ a2)))))"

definition key_p1 :: "string \<Rightarrow> string list \<Rightarrow> error + string" where
  "key_p1 history actions = Inr (history @ ''|'' @ join '','' actions)"

text \<open>Card, history and actions of the metadata field, and from them card and key.\<close>

definition metadata :: "(string \<Rightarrow> string list \<Rightarrow> error + string) \<Rightarrow> string \<Rightarrow> error + (string \<times> string)" where
  "metadata mk_key info =
     and_then (item (split_sep ''Card: '' info) 1) (\<lambda>after_card.
     and_then (item (split_sep '','' after_card) 0) (\<lambda>card.
     and_then (item (split_sep ''History: '' info) 1) (\<lambda>after_history.
     and_then (item (split_sep '' Actions:'' after_history) 0) (\<lambda>before_actions.
     and_then (item (split_sep ''Actions: '' info) 1) (\<lambda>after_actions.
     and_then (item (split_sep '']'' after_actions) 0) (\<lambda>action_text.
     and_then (mk_key (strip before_actions) (split_sep '', '' action_text)) (\<lambda>k.
     Inr (card, k))))))))"

definition to_float :: "(string \<Rightarrow> pyfloat option) \<Rightarrow> string \<Rightarrow> error + pyfloat" where
  "to_float flt p = (case flt p of None \<Rightarrow> Inl ValueError | Some x \<Rightarrow> Inr x)"

text \<open>
  One pass of the second loop on a stripped line: \<open>Inr None\<close> when the line is skipped,
  \<open>Inr (Some (card, key, probs))\<close> when a vector is to be stored, \<open>Inl\<close> when the pass
  raises. Unpacking \<^verbatim>\<open>line.split("\t")\<close> into two names raises ValueError unless there
  are exactly two pieces.
\<close>

definition record_line ::
  "string \<Rightarrow> (string \<Rightarrow> string list \<Rightarrow> error + string) \<Rightarrow> (string \<Rightarrow> pyfloat option) \<Rightarrow> string
     \<Rightarrow> error + (string \<times> string \<times> pyfloat list) option" where
  "record_line tag mk_key flt line =
     (if \<not> startswith line tag then Inr None
      else (case split_sep [tab] line of
              [info, probs] \<Rightarrow>
                and_then (map_err (to_float flt) (split_ws probs)) (\<lambda>ps.
                and_then (metadata mk_key info) (\<lambda>(crd, k).
                Inr (Some (crd, k, ps))))
            | _ \<Rightarrow> Inl ValueError))"

text \<open>
  The probability tokens of a stripped line: what the pass above hands to \<^verbatim>\<open>float\<close>,
  one token at a time.
\<close>

definition prob_tokens :: "string \<Rightarrow> string \<Rightarrow> string list" where
  "prob_tokens tag line =
     (if startswith line tag then
        (case split_sep [tab] line of [info, probs] \<Rightarrow> split_ws probs | _ \<Rightarrow> [])
      else [])"

text \<open>\<^verbatim>\<open>if card not in strategies: strategies[card] = {}\<close>, then \<^verbatim>\<open>strategies[card][key] = probs\<close>.\<close>

definition store :: "strategies \<Rightarrow> string \<Rightarrow> string \<Rightarrow> pyfloat list \<Rightarrow> strategies" where
  "store strategies crd k ps =
     AList.update crd (AList.update k ps (dict_get strategies crd [])) strategies"

fun read_records ::
  "string \<Rightarrow> (string \<Rightarrow> string list \<Rightarrow> error + string) \<Rightarrow> (string \<Rightarrow> pyfloat option)
     \<Rightarrow> strategies \<Rightarrow> string list \<Rightarrow> error + strategies" where
  "read_records tag mk_key flt strategies [] = Inr strategies"
| "read_records tag mk_key flt strategies (line # lines) =
     (case record_line tag mk_key flt line of
        Inl e \<Rightarrow> Inl e
      | Inr None \<Rightarrow> read_records tag mk_key flt strategies lines
      | Inr (Some (crd, k, ps)) \<Rightarrow>
          read_records tag mk_key flt (store strategies crd k ps) lines)"

text \<open>The Strategy Index of each script, from the lines of the file.\<close>

definition strategies_p0 :: "(string \<Rightarrow> pyfloat option) \<Rightarrow> string list \<Rightarrow> error + strategies" where
  "strategies_p0 flt lines =
     read_records ''[Player: 0'' key_p0 flt [] (player_lines ''PLAYER: 0'' False lines)"

definition strategies_p1 :: "(string \<Rightarrow> pyfloat option) \<Rightarrow> string list \<Rightarrow> error + strategies" where
  "strategies_p1 flt lines =
     read_records ''[Player: 1'' key_p1 flt [] (player_lines ''PLAYER: 1'' False lines)"

section \<open>The tables\<close>

definition card_order :: string where
  "card_order = ''AKQJT98765432''"

text \<open>
  \<^verbatim>\<open>sorted(strategies.keys(), key=lambda x: card_order.index(x))\<close>: the keys are
  computed for every card first (ValueError for a card that does not occur in
  \<^verbatim>\<open>card_order\<close>), then the cards are sorted by key, stably.
\<close>

definition card_key :: "string \<Rightarrow> error + (nat \<times> string)" where
  "card_key crd = and_then (str_index card_order crd) (\<lambda>i. Inr (i, crd))"

definition sorted_cards :: "strategies \<Rightarrow> error + string list" where
  "sorted_cards strategies =
     and_then (map_err card_key (map fst strategies)) (\<lambda>keyed.
     Inr (map snd (sort_key fst keyed)))"

text \<open>\<^verbatim>\<open>strategies[card]\<close>\<close>

definition card_data_of :: "strategies \<Rightarrow> string \<Rightarrow> error + card_data" where
  "card_data_of strategies crd =
     (case map_of strategies crd of None \<Rightarrow> Inl KeyError | Some d \<Rightarrow> Inr d)"

text \<open>
  A \<^verbatim>\<open>DataFrame\<close>: the column labels, the row labels and the array, row by row.
  \<open>rows_of n cols\<close> is the array with \<open>n\<close> rows whose columns are \<open>cols\<close>.
\<close>

record dataframe =
  df_columns :: "string list"
  df_index :: "string list"
  df_data :: "pyfloat list list"

definition rows_of :: "nat \<Rightarrow> pyfloat list list \<Rightarrow> pyfloat list list" where
  "rows_of n cols = map (\<lambda>r. map (\<lambda>col. col ! r) cols) [0..<n]"

subsection \<open>\<^verbatim>\<open>parse_strategy_p0.py\<close>\<close>

definition check_prob_p0 :: "card_data \<Rightarrow> error + pyfloat" where
  "check_prob_p0 card_data = item (dict_get card_data ''|BET,CHECK'' [Fin 0, Fin 1]) 1"

definition bet_prob_p0 :: "card_data \<Rightarrow> error + pyfloat" where
  "bet_prob_p0 card_data = item (dict_get card_data ''|BET,CHECK'' [Fin 1, Fin 0]) 0"

definition check_actions_p0 :: "card_data \<Rightarrow> pyfloat list" where
  "check_actions_p0 card_data =
     dict_get card_data ''CHECK, BET|CALLBET,FOLD,RAISE'' [Fin 0, Fin 0, Fin 0]"

definition bet_actions_p0 :: "card_data \<Rightarrow> pyfloat list" where
  "bet_actions_p0 card_data = dict_get card_data ''BET, RAISE|CALLRAISE,FOLD'' [Fin 0, Fin 0]"

text \<open>
  The body of the loop over the cards: the five entries of the card's column, rows
  CHECK+FOLD, CHECK+CALLBET, CHECK+RAISE, BET+FOLD, BET+CALLRAISE.
\<close>

definition column_p0 :: "card_data \<Rightarrow> error + pyfloat list" where
  "column_p0 card_data =
     and_then (check_prob_p0 card_data) (\<lambda>check_prob.
     and_then (bet_prob_p0 card_data) (\<lambda>bet_prob.
     let check_actions = check_actions_p0 card_data;
         bet_actions = bet_actions_p0 card_data in
     and_then (item check_actions 1) (\<lambda>c1.
     and_then (item check_actions 0) (\<lambda>c0.
     and_then (item check_actions 2) (\<lambda>c2.
     and_then (item bet_actions 1) (\<lambda>b1.
     and_then (item bet_actions 0) (\<lambda>b0.
     Inr [fmul check_prob c1, fmul check_prob c0, fmul check_prob c2,
          fmul bet_prob b1, fmul bet_prob b0])))))))"

definition index_p0 :: "string list" where
  "index_p0 = [''CHECK+FOLD'', ''CHECK+CALLBET'', ''CHECK+RAISE'', ''BET+FOLD'', ''BET+CALLRAISE'']"

definition table_p0 :: "strategies \<Rightarrow> error + dataframe" where
  "table_p0 strategies =
     and_then (sorted_cards strategies) (\<lambda>cards.
     and_then (map_err (\<lambda>card. and_then (card_data_of strategies card) column_p0) cards) (\<lambda>cols.
     Inr \<lparr>df_columns = cards, df_index = index_p0, df_data = rows_of 5 cols\<rparr>))"

definition parse_strategy_file_p0 :: "(string \<Rightarrow> pyfloat option) \<Rightarrow> string list \<Rightarrow> error + dataframe" where
  "parse_strategy_file_p0 flt lines = and_then (strategies_p0 flt lines) table_p0"

subsection \<open>\<^verbatim>\<open>parse_strategy_p1.py\<close>\<close>

definition checked_to_probs :: "card_data \<Rightarrow> pyfloat list" where
  "checked_to_probs card_data = dict_get card_data ''CHECK|BET,CHECK'' [Fin 0, Fin 1]"

definition raise_response_probs :: "card_data \<Rightarrow> pyfloat list" where
  "raise_response_probs card_data =
     dict_get card_data ''CHECK, BET, RAISE|CALLRAISE,FOLD'' [Fin 0, Fin 1]"

definition bet_into_probs :: "card_data \<Rightarrow> pyfloat list" where
  "bet_into_probs card_data = dict_get card_data ''BET|CALLBET,FOLD,RAISE'' [Fin 0, Fin 0, Fin 0]"

text \<open>The card's column of the checked-to table: rows BET+CALLRAISE, BET+FOLD, CHECK.\<close>

definition column_checked_to :: "card_data \<Rightarrow> error + pyfloat list" where
  "column_checked_to card_data =
     (let probs = checked_to_probs card_data in
      and_then (item probs 0) (\<lambda>bet_prob.
      and_then (item probs 1) (\<lambda>check_prob.
      let response = raise_response_probs card_data in
      and_then
        (if response \<noteq> [] then
           and_then (item response 0) (\<lambda>callraise_prob.
           and_then (item response 1) (\<lambda>fold_to_raise_prob.
           Inr (callraise_prob, fold_to_raise_prob)))
         else Inr (Fin 0, Fin 1))
        (\<lambda>(callraise_prob, fold_to_raise_prob).
      Inr [fmul bet_prob callraise_prob, fmul bet_prob fold_to_raise_prob, check_prob]))))"

text \<open>The card's column of the bet-into table: rows CALLBET, FOLD, RAISE.\<close>

definition column_bet_into :: "card_data \<Rightarrow> error + pyfloat list" where
  "column_bet_into card_data =
     (let probs = bet_into_probs card_data in
      and_then (item probs 0) (\<lambda>p0.
      and_then (item probs 1) (\<lambda>p1.
      and_then (item probs 2) (\<lambda>p2.
      Inr [p0, p1, p2]))))"

definition index_checked_to :: "string list" where
  "index_checked_to = [''BET+CALLRAISE'', ''BET+FOLD'', ''CHECK'']"

definition index_bet_into :: "string list" where
  "index_bet_into = [''CALLBET'', ''FOLD'', ''RAISE'']"

definition columns_p1 :: "card_data \<Rightarrow> error + (pyfloat list \<times> pyfloat list)" where
  "columns_p1 card_data =
     and_then (column_checked_to card_data) (\<lambda>c1.
     and_then (column_bet_into card_data) (\<lambda>c2.
     Inr (c1, c2)))"

definition tables_p1 :: "strategies \<Rightarrow> error + (dataframe \<times> dataframe)" where
  "tables_p1 strategies =
     and_then (sorted_cards strategies) (\<lambda>cards.
     and_then (map_err (\<lambda>card. and_then (card_data_of strategies card) columns_p1) cards) (\<lambda>cols.
     Inr (\<lparr>df_columns = cards, df_index = index_checked_to, df_data = rows_of 3 (map fst cols)\<rparr>,
          \<lparr>df_columns = cards, df_index = index_bet_into, df_data = rows_of 3 (map snd cols)\<rparr>)))"

definition parse_strategy_file_p1 ::
  "(string \<Rightarrow> pyfloat option) \<Rightarrow> string list \<Rightarrow> error + (dataframe \<times> dataframe)" where
  "parse_strategy_file_p1 flt lines = and_then (strategies_p1 flt lines) tables_p1"

subsection \<open>Predicates on the index\<close>

text \<open>Every probability stored in a card's dictionary, or in the index, is finite and non-negative.\<close>

definition vectors_ok :: "card_data \<Rightarrow> bool" where
  "vectors_ok d = (\<forall>(k, v) \<in> set d. \<forall>x \<in> set v. finite_nonneg x)"

definition index_ok :: "strategies \<Rightarrow> bool" where
  "index_ok s = (\<forall>(c, d) \<in> set s. vectors_ok d)"

text \<open>\<^verbatim>\<open>strategies[card][key]\<close>, when the card and the key are present.\<close>

definition vector_at :: "strategies \<Rightarrow> string \<Rightarrow> string \<Rightarrow> pyfloat list option" where
  "vector_at s crd k = (case map_of s crd of None \<Rightarrow> None | Some d \<Rightarrow> map_of d k)"

text \<open>Two indexes with the same cards and the same vector under every card and key.\<close>

definition same_index :: "strategies \<Rightarrow> strategies \<Rightarrow> bool" where
  "same_index s s' = (fst ` set s = fst ` set s' \<and> (\<forall>crd k. vector_at s crd k = vector_at s' crd k))"

text \<open>The 13 ranks, as the one-character cards of \<^verbatim>\<open>card_order\<close>.\<close>

definition rank_cards :: "string list" where
  "rank_cards = map (\<lambda>x. [x]) card_order"

section \<open>Example dumps\<close>


text \<open>
  The same dump with the root record laid out as the other two are: the history text,
  here empty, stands between \<^verbatim>\<open>History: \<close> and \<^verbatim>\<open> Actions:\<close>.
\<close>

definition scenario_empty_history :: "string list" where
  "scenario_empty_history =
     [''PLAYER: 0'' @ [newline],
      ''[Player: 0 Card: A, History:  Actions: BET, CHECK]'' @ [tab] @ ''0.7 0.3'' @ [newline],
      ''[Player: 0 Card: A, History: CHECK, BET Actions: CALLBET, FOLD, RAISE]'' @ [tab]
        @ ''0.2 0.6 0.2'' @ [newline],
      ''[Player: 0 Card: A, History: BET, RAISE Actions: CALLRAISE, FOLD]'' @ [tab]
        @ ''0.9 0.1'' @ [newline],
      ''END'' @ [newline]]"

text \<open>A dump of player 0 with the root record of card A only.\<close>

definition root_only_dump :: "string list" where
  "root_only_dump =
     [''PLAYER: 0'' @ [newline],
      ''[Player: 0 Card: A, History:  Actions: BET, CHECK]'' @ [tab] @ ''0.7 0.3'' @ [newline],
      ''END'' @ [newline]]"

text \<open>A dump of player 0 with the two second-level records of card A and no root record.\<close>

definition no_root_dump :: "string list" where
  "no_root_dump =
     [''PLAYER: 0'' @ [newline],
      ''[Player: 0 Card: A, History: CHECK, BET Actions: CALLBET, FOLD, RAISE]'' @ [tab]
        @ ''0.2 0.6 0.2'' @ [newline],
      ''[Player: 0 Card: A, History: BET, RAISE Actions: CALLRAISE, FOLD]'' @ [tab]
        @ ''0.9 0.1'' @ [newline],
      ''END'' @ [newline]]"

text \<open>A dump of player 1 with the three records of card K.\<close>

definition responder_dump :: "string list" where
  "responder_dump =
     [''PLAYER: 1'' @ [newline],
      ''[Player: 1 Card: K, History: CHECK Actions: BET, CHECK]'' @ [tab] @ ''0.4 0.6'' @ [newline],
      ''[Player: 1 Card: K, History: CHECK, BET, RAISE Actions: CALLRAISE, FOLD]'' @ [tab]
        @ ''0.25 0.75'' @ [newline],
      ''[Player: 1 Card: K, History: BET Actions: CALLBET, FOLD, RAISE]'' @ [tab]
        @ ''0.5 0.3 0.2'' @ [newline],
      ''END'' @ [newline]]"

text \<open>Dumps whose second record line has a space where the tab should be.\<close>

definition tabless_dump_p0 :: "string list" where
  "tabless_dump_p0 =
     [''PLAYER: 0'' @ [newline],
      ''[Player: 0 Card: A, History:  Actions: BET, CHECK]'' @ [tab] @ ''0.7 0.3'' @ [newline],
      ''[Player: 0 Card: K, History:  Actions: BET, CHECK] 0.5 0.5'' @ [newline],
      ''END'' @ [newline]]"

definition tabless_dump_p1 :: "string list" where
  "tabless_dump_p1 =
     [''PLAYER: 1'' @ [newline],
      ''[Player: 1 Card: A, History: CHECK Actions: BET, CHECK]'' @ [tab] @ ''0.7 0.3'' @ [newline],
      ''[Player: 1 Card: K, History: CHECK Actions: BET, CHECK] 0.5 0.5'' @ [newline],
      ''END'' @ [newline]]"

text \<open>
  Dumps with one record whose probabilities outnumber its actions: three for two actions,
  four for three actions.
\<close>

definition mismatch_dump_p0 :: "string list" where
  "mismatch_dump_p0 =
     [''PLAYER: 0'' @ [newline],
      ''[Player: 0 Card: A, History:  Actions: BET, CHECK]'' @ [tab] @ ''0.7 0.2 0.1'' @ [newline],
      ''END'' @ [newline]]"

definition mismatch_dump_p1 :: "string list" where
  "mismatch_dump_p1 =
     [''PLAYER: 1'' @ [newline],
      ''[Player: 1 Card: A, History: BET Actions: CALLBET, FOLD, RAISE]'' @ [tab] @ ''0.5 0.25 0.125 0.125'' @ [newline],
      ''END'' @ [newline]]"

text \<open>Dumps with the cards 2, A and T, in this order.\<close>

definition three_cards_dump_p0 :: "string list" where
  "three_cards_dump_p0 =
     [''PLAYER: 0'' @ [newline],
      ''[Player: 0 Card: 2, History:  Actions: BET, CHECK]'' @ [tab] @ ''0.5 0.5'' @ [newline],
      ''[Player: 0 Card: A, History:  Actions: BET, CHECK]'' @ [tab] @ ''0.7 0.3'' @ [newline],
      ''[Player: 0 Card: T, History:  Actions: BET, CHECK]'' @ [tab] @ ''0 1'' @ [newline],
      ''END'' @ [newline]]"

definition three_cards_dump_p1 :: "string list" where
  "three_cards_dump_p1 =
     [''PLAYER: 1'' @ [newline],
      ''[Player: 1 Card: 2, History: CHECK Actions: BET, CHECK]'' @ [tab] @ ''0.5 0.5'' @ [newline],
      ''[Player: 1 Card: A, History: CHECK Actions: BET, CHECK]'' @ [tab] @ ''0.7 0.3'' @ [newline],
      ''[Player: 1 Card: T, History: BET Actions: CALLBET, FOLD, RAISE]'' @ [tab] @ ''0 1 0'' @ [newline],
      ''END'' @ [newline]]"

text \<open>A dump of player 0 whose root record of card A has the probabilities 0 and inf.\<close>

definition infinity_dump_p0 :: "string list" where
  "infinity_dump_p0 =
     [''PLAYER: 0'' @ [newline],
      ''[Player: 0 Card: A, History:  Actions: BET, CHECK]'' @ [tab] @ ''0 inf'' @ [newline],
      ''END'' @ [newline]]"

text \<open>
  Dumps with two record lines of card A under the same key, a record line of another
  card between them, and the same dumps without the earlier of the two lines. In the
  last pair the other card is \<^verbatim>\<open>AK\<close>, which \<^verbatim>\<open>card_order.index\<close> finds at
  position 0, as it finds \<^verbatim>\<open>A\<close>.
\<close>

definition duplicate_dump_p0 :: "string list" where
  "duplicate_dump_p0 =
     [''PLAYER: 0'' @ [newline],
      ''[Player: 0 Card: A, History:  Actions: BET, CHECK]'' @ [tab] @ ''0.5 0.5'' @ [newline],
      ''[Player: 0 Card: K, History:  Actions: BET, CHECK]'' @ [tab] @ ''0.1 0.9'' @ [newline],
      ''[Player: 0 Card: A, History:  Actions: BET, CHECK]'' @ [tab] @ ''0.7 0.3'' @ [newline],
      ''END'' @ [newline]]"

definition duplicate_dump_p1 :: "string list" where
  "duplicate_dump_p1 =
     [''PLAYER: 1'' @ [newline],
      ''[Player: 1 Card: A, History: CHECK Actions: BET, CHECK]'' @ [tab] @ ''0.5 0.5'' @ [newline],
      ''[Player: 1 Card: K, History: CHECK Actions: BET, CHECK]'' @ [tab] @ ''0.1 0.9'' @ [newline],
      ''[Player: 1 Card: A, History: CHECK Actions: BET, CHECK]'' @ [tab] @ ''0.7 0.3'' @ [newline],
      ''END'' @ [newline]]"

definition two_letter_card_dump_p1 :: "string list" where
  "two_letter_card_dump_p1 =
     [''PLAYER: 1'' @ [newline],
      ''[Player: 1 Card: A, History: CHECK Actions: BET, CHECK]'' @ [tab] @ ''0.5 0.5'' @ [newline],
      ''[Player: 1 Card: AK, History: CHECK Actions: BET, CHECK]'' @ [tab] @ ''0.1 0.9'' @ [newline],
      ''[Player: 1 Card: A, History: CHECK Actions: BET, CHECK]'' @ [tab] @ ''0.7 0.3'' @ [newline],
      ''END'' @ [newline]]"


definition duplicate_dump_short_p0 :: "string list" where
  "duplicate_dump_short_p0 =
     [''PLAYER: 0'' @ [newline],
      ''[Player: 0 Card: K, History:  Actions: BET, CHECK]'' @ [tab] @ ''0.1 0.9'' @ [newline],
      ''[Player: 0 Card: A, History:  Actions: BET, CHECK]'' @ [tab] @ ''0.7 0.3'' @ [newline],
      ''END'' @ [newline]]"

definition duplicate_dump_short_p1 :: "string list" where
  "duplicate_dump_short_p1 =
     [''PLAYER: 1'' @ [newline],
      ''[Player: 1 Card: K, History: CHECK Actions: BET, CHECK]'' @ [tab] @ ''0.1 0.9'' @ [newline],
      ''[Player: 1 Card: A, History: CHECK Actions: BET, CHECK]'' @ [tab] @ ''0.7 0.3'' @ [newline],
      ''END'' @ [newline]]"

definition two_letter_card_dump_short_p1 :: "string list" where
  "two_letter_card_dump_short_p1 =
     [''PLAYER: 1'' @ [newline],
      ''[Player: 1 Card: AK, History: CHECK Actions: BET, CHECK]'' @ [tab] @ ''0.1 0.9'' @ [newline],
      ''[Player: 1 Card: A, History: CHECK Actions: BET, CHECK]'' @ [tab] @ ''0.7 0.3'' @ [newline],
      ''END'' @ [newline]]"

section \<open>Basic facts\<close>

lemma and_then_Inr [simp]: "and_then (Inr x) f = f x"
  by (simp add: and_then_def)

lemma and_then_Inl [simp]: "and_then (Inl e) f = Inl e"
  by (simp add: and_then_def)

lemma and_then_eq_Inr: "and_then m f = Inr y \<longleftrightarrow> (\<exists>x. m = Inr x \<and> f x = Inr y)"
  by (cases m) simp_all

lemma item_eq_Inr: "item xs i = Inr x \<longleftrightarrow> i < length xs \<and> xs ! i = x"
  by (auto simp: item_def)

lemma map_err_Inr_all2:
  "map_err f xs = Inr ys \<Longrightarrow> list_all2 (\<lambda>x y. f x = Inr y) xs ys"
  by (induction xs arbitrary: ys) (auto split: sum.splits)

lemma all2_map_err_Inr:
  "list_all2 (\<lambda>x y. f x = Inr y) xs ys \<Longrightarrow> map_err f xs = Inr ys"
  by (induction xs ys rule: list_all2_induct) auto

lemma dict_get_absent: "map_of d k = None \<Longrightarrow> dict_get d k dflt = dflt"
  by (simp add: dict_get_def)


lemma column_p0_length: "column_p0 cd = Inr col \<Longrightarrow> length col = 5"
  by (auto simp: column_p0_def and_then_eq_Inr Let_def)

lemma column_checked_to_length: "column_checked_to cd = Inr col \<Longrightarrow> length col = 3"
  by (auto simp: column_checked_to_def and_then_eq_Inr Let_def split: if_splits)

lemma column_bet_into_length: "column_bet_into cd = Inr col \<Longrightarrow> length col = 3"
  by (auto simp: column_bet_into_def and_then_eq_Inr Let_def)

lemma rows_of_column:
  "i < length cols \<Longrightarrow> length (cols ! i) = n \<Longrightarrow> map (\<lambda>row. row ! i) (rows_of n cols) = cols ! i"
  by (auto simp: rows_of_def intro!: nth_equalityI)

text \<open>
  The column of a table at position \<open>i\<close> is the column composed from the dictionary
  of the card at position \<open>i\<close>.
\<close>

lemma table_p0_column:
  assumes "table_p0 strategies = Inr df" and "i < length (df_columns df)"
  shows "\<exists>cd. map_of strategies (df_columns df ! i) = Some cd
           \<and> column_p0 cd = Inr (map (\<lambda>row. row ! i) (df_data df))"
proof -
  from assms(1) obtain cards cols where
    cards: "sorted_cards strategies = Inr cards" and
    cols: "map_err (\<lambda>c. and_then (card_data_of strategies c) column_p0) cards = Inr cols" and
    df: "df = \<lparr>df_columns = cards, df_index = index_p0, df_data = rows_of 5 cols\<rparr>"
    by (auto simp: table_p0_def and_then_eq_Inr)
  from cols have all2: "list_all2 (\<lambda>c y. and_then (card_data_of strategies c) column_p0 = Inr y) cards cols"
    by (rule map_err_Inr_all2)
  from assms(2) df have i: "i < length cards" by simp
  with all2 have len: "i < length cols" by (simp add: list_all2_lengthD)
  from all2 i have "and_then (card_data_of strategies (cards ! i)) column_p0 = Inr (cols ! i)"
    by (rule list_all2_nthD)
  then obtain cd where cd: "card_data_of strategies (cards ! i) = Inr cd" "column_p0 cd = Inr (cols ! i)"
    by (auto simp: and_then_eq_Inr)
  from cd(1) have "map_of strategies (cards ! i) = Some cd"
    by (auto simp: card_data_of_def split: option.splits)
  moreover from cd(2) have "length (cols ! i) = 5" by (rule column_p0_length)
  with len have "map (\<lambda>row. row ! i) (rows_of 5 cols) = cols ! i" by (simp add: rows_of_column)
  ultimately show ?thesis using cd(2) df by simp
qed


lemma take2_items:
  assumes "item xs 0 = Inr a" and "item xs 1 = Inr b"
  shows "take 2 xs = [a, b]"
proof -
  from assms(2) have "1 < length xs" by (simp add: item_def split: if_splits)
  then obtain x y zs where xs: "xs = x # y # zs"
    by (cases xs; cases "tl xs") auto
  with assms show ?thesis by (simp add: item_def)
qed

lemma take3_items:
  assumes "item xs 0 = Inr a" and "item xs 1 = Inr b" and "item xs 2 = Inr c"
  shows "take 3 xs = [a, b, c]"
proof -
  from assms(3) have "2 < length xs" by (simp add: item_def split: if_splits)
  then obtain x y z zs where xs: "xs = x # y # z # zs"
    by (cases xs; cases "tl xs"; cases "tl (tl xs)") auto
  with assms show ?thesis by (simp add: item_def)
qed

lemma parse_p0_table:
  "strategies_p0 flt lines = Inr strategies \<Longrightarrow> parse_strategy_file_p0 flt lines = Inr df
     \<Longrightarrow> table_p0 strategies = Inr df"
  by (simp add: parse_strategy_file_p0_def)

lemma parse_p1_tables:
  "strategies_p1 flt lines = Inr strategies \<Longrightarrow> parse_strategy_file_p1 flt lines = Inr dfs
     \<Longrightarrow> tables_p1 strategies = Inr dfs"
  by (simp add: parse_strategy_file_p1_def)

subsection \<open>Sections and record lines\<close>

lemma set_strip: "set (strip s) \<subseteq> set s"
proof -
  have "set (dropWhile isspace (rev (dropWhile isspace (rev s)))) \<subseteq> set (rev (dropWhile isspace (rev s)))"
    by (auto dest: set_dropWhileD)
  also have "\<dots> \<subseteq> set s" by (auto dest: set_dropWhileD)
  finally show ?thesis by (simp add: strip_def lstrip_def rstrip_def)
qed

lemma startswith_tab [simp]: "startswith (c # cs) [tab] \<longleftrightarrow> c = tab"
  by (simp add: startswith_def)

lemma find_sep_tab_None: "tab \<notin> set s \<Longrightarrow> find_sep [tab] s = None"
  by (induction s) auto

lemma find_sep_tab_Some: "tab \<notin> set a \<Longrightarrow> find_sep [tab] (a @ tab # b) = Some (a, b)"
  by (induction a) auto

lemma split_tab_one: "tab \<notin> set s \<Longrightarrow> split_sep [tab] s = [s]"
  by (simp add: split_sep.simps find_sep_tab_None)

lemma split_tab_two:
  "tab \<notin> set a \<Longrightarrow> tab \<notin> set b \<Longrightarrow> split_sep [tab] (a @ tab # b) = [a, b]"
  by (subst split_sep.simps) (simp add: find_sep_tab_Some split_tab_one)

lemma record_line_no_tab:
  "startswith l tag \<Longrightarrow> tab \<notin> set l \<Longrightarrow> record_line tag mk_key flt l = Inl ValueError"
  by (simp add: record_line_def split_tab_one)

lemma read_records_raises:
  "l \<in> set ls \<Longrightarrow> record_line tag mk_key flt l = Inl e
     \<Longrightarrow> \<exists>e'. read_records tag mk_key flt s ls = Inl e'"
proof (induction ls arbitrary: s)
  case Nil
  then show ?case by simp
next
  case (Cons x xs)
  show ?case
  proof (cases "record_line tag mk_key flt x")
    case (Inl e')
    then show ?thesis by simp
  next
    case (Inr r)
    with Cons.prems have "l \<in> set xs" by auto
    with Cons.IH Cons.prems(2) have "\<And>s'. \<exists>e'. read_records tag mk_key flt s' xs = Inl e'"
      by blast
    with Inr show ?thesis by (cases r) (auto split: prod.splits)
  qed
qed

lemma player_lines_append:
  "player_lines marker b (xs @ ys) =
     player_lines marker b xs @ player_lines marker (in_player_after marker b xs) ys"
  by (induction xs arbitrary: b) auto

lemma in_player_after_append:
  "in_player_after marker b (xs @ ys) = in_player_after marker (in_player_after marker b xs) ys"
  by (induction xs arbitrary: b) auto

lemma in_player_after_no_end:
  "\<forall>x \<in> set xs. strip x \<noteq> ''END'' \<Longrightarrow> in_player_after marker True xs"
  by (induction xs) auto

lemma line_in_player_lines:
  assumes "strip m = marker" and "\<forall>x \<in> set mid. strip x \<noteq> ''END''"
    and "strip l \<noteq> []" and "strip l \<noteq> marker" and "strip l \<noteq> ''END''"
  shows "strip l \<in> set (player_lines marker b (pre @ m # mid @ l # post))"
proof -
  have "in_player_after marker b (pre @ m # mid) = True"
    using assms(1,2) by (simp add: in_player_after_append in_player_after_no_end)
  then have "player_lines marker b ((pre @ m # mid) @ l # post) =
      player_lines marker b (pre @ m # mid) @ strip l # player_lines marker True post"
    using assms(3-5) by (simp add: player_lines_append del: append_assoc)
  then show ?thesis by simp
qed

lemma tabless_line_raises:
  assumes "strip m = marker" and "\<forall>x \<in> set mid. strip x \<noteq> ''END''"
    and "startswith (strip l) tag" and "tag \<noteq> []"
    and "\<not> startswith marker tag" and "\<not> startswith ''END'' tag"
    and "tab \<notin> set l"
  shows "\<exists>e. read_records tag mk_key flt s (player_lines marker False (pre @ m # mid @ l # post)) = Inl e"
proof -
  from assms(3,4) have ne: "strip l \<noteq> []" by (auto simp: startswith_def)
  from assms(3,5) have nm: "strip l \<noteq> marker" by auto
  from assms(3,6) have nend: "strip l \<noteq> ''END''" by auto
  from assms(7) set_strip have "tab \<notin> set (strip l)" by blast
  with assms(3) have "record_line tag mk_key flt (strip l) = Inl ValueError"
    by (rule record_line_no_tab)
  moreover have "strip l \<in> set (player_lines marker False (pre @ m # mid @ l # post))"
    using assms(1,2) ne nm nend by (rule line_in_player_lines)
  ultimately show ?thesis by (rule read_records_raises [rotated])
qed

lemma startswith_append: "startswith s p \<Longrightarrow> startswith (s @ t) p"
proof -
  assume "startswith s p"
  then have a: "take (length p) s = p" by (simp only: startswith_def)
  have "length (take (length p) s) \<le> length s" by simp
  with a have "length p \<le> length s" by (simp only:)
  then have "take (length p) (s @ t) = take (length p) s" by simp
  with a show ?thesis by (simp only: startswith_def)
qed

subsection \<open>The index and the sorted cards\<close>

lemma read_records_invariant:
  assumes "read_records tag mk_key flt s ls = Inr s'" and "P s"
    and "\<And>s l c k v. P s \<Longrightarrow> l \<in> set ls \<Longrightarrow> record_line tag mk_key flt l = Inr (Some (c, k, v))
           \<Longrightarrow> P (store s c k v)"
  shows "P s'"
  using assms
proof (induction ls arbitrary: s)
  case Nil
  then show ?case by simp
next
  case (Cons l ls)
  have step: "P (store s c k v)"
    if "P s" "la \<in> set ls" "record_line tag mk_key flt la = Inr (Some (c, k, v))" for s la c k v
    using that Cons.prems(3) [of s la c k v] by simp
  show ?case
  proof (cases "record_line tag mk_key flt l")
    case (Inl e)
    with Cons.prems(1) show ?thesis by simp
  next
    case (Inr r)
    show ?thesis
    proof (cases r)
      case None
      with Inr Cons.prems(1) have run: "read_records tag mk_key flt s ls = Inr s'" by simp
      from run Cons.prems(2) step show ?thesis by (rule Cons.IH)
    next
      case (Some rec)
      obtain c k v where rec: "rec = (c, k, v)" by (cases rec)
      with Some Inr Cons.prems(1)
      have run: "read_records tag mk_key flt (store s c k v) ls = Inr s'" by simp
      from Some Inr rec Cons.prems(2) have "P (store s c k v)"
        by (intro Cons.prems(3) [of s l c k v]) simp_all
      with run show ?thesis using step by (rule Cons.IH)
    qed
  qed
qed

lemma distinct_store: "distinct (map fst s) \<Longrightarrow> distinct (map fst (store s c k v))"
  by (simp add: store_def distinct_update)

lemma read_records_distinct:
  assumes "read_records tag mk_key flt [] ls = Inr s"
  shows "distinct (map fst s)"
  using assms
proof (rule read_records_invariant)
  show "distinct (map fst ([] :: strategies))" by simp
next
  fix s' :: strategies and c k v
  assume "distinct (map fst s')"
  then show "distinct (map fst (store s' c k v))" by (rule distinct_store)
qed

lemma card_key_Inr: "card_key c = Inr y \<longleftrightarrow> (\<exists>i. str_index card_order c = Inr i \<and> y = (i, c))"
  by (auto simp: card_key_def and_then_eq_Inr)

lemma keyed_cards:
  "list_all2 (\<lambda>c y. card_key c = Inr y) cs keyed
     \<Longrightarrow> map snd keyed = cs \<and> (\<forall>y \<in> set keyed. str_index card_order (snd y) = Inr (fst y))"
  by (induction cs keyed rule: list_all2_induct) (auto simp: card_key_Inr)

lemma sorted_cards_props:
  assumes "sorted_cards s = Inr cards" and "distinct (map fst s)"
  shows "set cards = fst ` set s \<and> distinct cards
     \<and> (\<exists>ranks. map (str_index card_order) cards = map Inr ranks \<and> sorted ranks)"
proof -
  from assms(1) obtain keyed where
    keyed: "map_err card_key (map fst s) = Inr keyed" and
    cards: "cards = map snd (sort_key fst keyed)"
    by (auto simp: sorted_cards_def and_then_eq_Inr)
  from keyed have "list_all2 (\<lambda>c y. card_key c = Inr y) (map fst s) keyed"
    by (rule map_err_Inr_all2)
  then have snd_keyed: "map snd keyed = map fst s"
    and ranks: "\<forall>y \<in> set keyed. str_index card_order (snd y) = Inr (fst y)"
    by (auto dest: keyed_cards)
  have "set cards = snd ` set keyed" by (simp add: cards)
  also have "\<dots> = set (map snd keyed)" by simp
  also have "\<dots> = fst ` set s" by (simp add: snd_keyed)
  finally have set_eq: "set cards = fst ` set s" .
  from assms(2) snd_keyed have "distinct (map snd keyed)" by simp
  then have "distinct keyed \<and> inj_on snd (set keyed)" by (simp add: distinct_map)
  then have dist: "distinct cards" by (simp add: cards distinct_map)
  have "map (str_index card_order) cards = map Inr (map fst (sort_key fst keyed))"
    using ranks by (simp add: cards)
  moreover have "sorted (map fst (sort_key fst keyed))" by (rule sorted_sort_key)
  ultimately have "\<exists>ranks. map (str_index card_order) cards = map Inr ranks \<and> sorted ranks"
    by blast
  with set_eq dist show ?thesis by blast
qed

lemma rows_of_shape:
  "length (rows_of n cols) = n \<and> (\<forall>row \<in> set (rows_of n cols). length row = length cols)"
  by (auto simp: rows_of_def)

subsection \<open>Finite non-negative entries\<close>

lemma finite_nonneg_fmul: "finite_nonneg a \<Longrightarrow> finite_nonneg b \<Longrightarrow> finite_nonneg (fmul a b)"
  by (cases a; cases b) simp_all

lemma finite_nonneg_fnonneg: "finite_nonneg a \<Longrightarrow> fnonneg a"
  by (cases a) simp_all

lemma item_in_set: "item xs i = Inr x \<Longrightarrow> x \<in> set xs"
  by (auto simp: item_def split: if_splits)

lemma dict_get_cases: "dict_get d k dflt = dflt \<or> (k, dict_get d k dflt) \<in> set d"
  by (auto simp: dict_get_def split: option.splits dest: map_of_SomeD)

lemma dict_get_ok:
  assumes "vectors_ok d" and "\<forall>x \<in> set dflt. finite_nonneg x"
  shows "\<forall>x \<in> set (dict_get d k dflt). finite_nonneg x"
proof (cases "map_of d k")
  case None
  with assms(2) show ?thesis by (simp add: dict_get_def)
next
  case (Some v)
  then have "(k, v) \<in> set d" by (rule map_of_SomeD)
  with assms(1) have "\<forall>x \<in> set v. finite_nonneg x" by (auto simp: vectors_ok_def)
  with Some show ?thesis by (simp add: dict_get_def)
qed

lemma item_ok:
  assumes "item (dict_get d k dflt) i = Inr x" and "vectors_ok d"
    and "\<forall>x \<in> set dflt. finite_nonneg x"
  shows "finite_nonneg x"
proof -
  from assms(1) have "x \<in> set (dict_get d k dflt)" by (rule item_in_set)
  moreover from assms(2,3) have "\<forall>x \<in> set (dict_get d k dflt). finite_nonneg x"
    by (rule dict_get_ok)
  ultimately show ?thesis by simp
qed

lemma column_p0_ok:
  assumes "column_p0 d = Inr col" and "vectors_ok d"
  shows "\<forall>x \<in> set col. finite_nonneg x"
proof -
  from assms(1) obtain cp bp c1 c0 c2 b1 b0 where
    items: "check_prob_p0 d = Inr cp" "bet_prob_p0 d = Inr bp"
      "item (check_actions_p0 d) 1 = Inr c1" "item (check_actions_p0 d) 0 = Inr c0"
      "item (check_actions_p0 d) 2 = Inr c2" "item (bet_actions_p0 d) 1 = Inr b1"
      "item (bet_actions_p0 d) 0 = Inr b0" and
    col: "col = [fmul cp c1, fmul cp c0, fmul cp c2, fmul bp b1, fmul bp b0]"
    by (auto simp: column_p0_def and_then_eq_Inr Let_def)
  have "finite_nonneg cp" using items(1) assms(2) unfolding check_prob_p0_def
    by (rule item_ok) simp
  moreover have "finite_nonneg bp" using items(2) assms(2) unfolding bet_prob_p0_def
    by (rule item_ok) simp
  moreover have "finite_nonneg c1" using items(3) assms(2) unfolding check_actions_p0_def
    by (rule item_ok) simp
  moreover have "finite_nonneg c0" using items(4) assms(2) unfolding check_actions_p0_def
    by (rule item_ok) simp
  moreover have "finite_nonneg c2" using items(5) assms(2) unfolding check_actions_p0_def
    by (rule item_ok) simp
  moreover have "finite_nonneg b1" using items(6) assms(2) unfolding bet_actions_p0_def
    by (rule item_ok) simp
  moreover have "finite_nonneg b0" using items(7) assms(2) unfolding bet_actions_p0_def
    by (rule item_ok) simp
  ultimately show ?thesis by (simp add: col finite_nonneg_fmul)
qed

lemma column_checked_to_ok:
  assumes "column_checked_to d = Inr col" and "vectors_ok d"
  shows "\<forall>x \<in> set col. finite_nonneg x"
proof -
  from assms(1) obtain bp cp cr fr where
    items: "item (checked_to_probs d) 0 = Inr bp" "item (checked_to_probs d) 1 = Inr cp" and
    resp: "(if raise_response_probs d \<noteq> [] then
           and_then (item (raise_response_probs d) 0) (\<lambda>callraise_prob.
           and_then (item (raise_response_probs d) 1) (\<lambda>fold_to_raise_prob.
           Inr (callraise_prob, fold_to_raise_prob)))
         else Inr (Fin 0, Fin 1)) = Inr (cr, fr)" and
    col: "col = [fmul bp cr, fmul bp fr, cp]"
    by (auto simp: column_checked_to_def and_then_eq_Inr Let_def)
  have "finite_nonneg bp" using items(1) assms(2) unfolding checked_to_probs_def
    by (rule item_ok) simp
  moreover have "finite_nonneg cp" using items(2) assms(2) unfolding checked_to_probs_def
    by (rule item_ok) simp
  moreover have "finite_nonneg cr \<and> finite_nonneg fr"
  proof (cases "raise_response_probs d = []")
    case True
    with resp show ?thesis by auto
  next
    case False
    with resp have i0: "item (raise_response_probs d) 0 = Inr cr"
      and i1: "item (raise_response_probs d) 1 = Inr fr"
      by (auto simp: and_then_eq_Inr)
    have "finite_nonneg cr" using i0 assms(2) unfolding raise_response_probs_def
      by (rule item_ok) simp
    moreover have "finite_nonneg fr" using i1 assms(2) unfolding raise_response_probs_def
      by (rule item_ok) simp
    ultimately show ?thesis by simp
  qed
  ultimately show ?thesis by (simp add: col finite_nonneg_fmul)
qed

lemma column_bet_into_ok:
  assumes "column_bet_into d = Inr col" and "vectors_ok d"
  shows "\<forall>x \<in> set col. finite_nonneg x"
proof -
  from assms(1) obtain p0 p1 p2 where
    items: "item (bet_into_probs d) 0 = Inr p0" "item (bet_into_probs d) 1 = Inr p1"
      "item (bet_into_probs d) 2 = Inr p2" and
    col: "col = [p0, p1, p2]"
    by (auto simp: column_bet_into_def and_then_eq_Inr Let_def)
  have "finite_nonneg p0" using items(1) assms(2) unfolding bet_into_probs_def
    by (rule item_ok) simp
  moreover have "finite_nonneg p1" using items(2) assms(2) unfolding bet_into_probs_def
    by (rule item_ok) simp
  moreover have "finite_nonneg p2" using items(3) assms(2) unfolding bet_into_probs_def
    by (rule item_ok) simp
  ultimately show ?thesis by (simp add: col)
qed

lemma set_update_subset: "set (AList.update k v al) \<subseteq> insert (k, v) (set al)"
  by (induction al) auto

lemma vectors_ok_update:
  assumes "vectors_ok d" and "\<forall>x \<in> set v. finite_nonneg x"
  shows "vectors_ok (AList.update k v d)"
  unfolding vectors_ok_def
proof (intro ballI, clarify)
  fix k' v' x
  assume "(k', v') \<in> set (AList.update k v d)" and x: "x \<in> set v'"
  with set_update_subset [of k v d] have "(k', v') = (k, v) \<or> (k', v') \<in> set d" by auto
  with assms x show "finite_nonneg x" by (auto simp: vectors_ok_def)
qed

lemma index_ok_store:
  assumes "index_ok s" and "\<forall>x \<in> set v. finite_nonneg x"
  shows "index_ok (store s c k v)"
proof -
  have "vectors_ok (dict_get s c [])"
  proof (cases "map_of s c")
    case None
    then show ?thesis by (simp add: dict_get_def vectors_ok_def)
  next
    case (Some d)
    then have "(c, d) \<in> set s" by (rule map_of_SomeD)
    with assms(1) have "vectors_ok d" by (auto simp: index_ok_def)
    with Some show ?thesis by (simp add: dict_get_def)
  qed
  with assms(2) have new: "vectors_ok (AList.update k v (dict_get s c []))"
    by (simp add: vectors_ok_update)
  show ?thesis
    unfolding index_ok_def store_def
  proof (intro ballI, clarify)
    fix c' d'
    assume "(c', d') \<in> set (AList.update c (AList.update k v (dict_get s c [])) s)"
    with set_update_subset [of c "AList.update k v (dict_get s c [])" s]
    have "d' = AList.update k v (dict_get s c []) \<or> (c', d') \<in> set s" by auto
    with new assms(1) show "vectors_ok d'" by (auto simp: index_ok_def)
  qed
qed

lemma to_float_Inr: "to_float flt t = Inr x \<longleftrightarrow> flt t = Some x"
  by (simp add: to_float_def split: option.splits)

lemma record_line_tokens:
  assumes "record_line tag mk_key flt l = Inr (Some (c, k, ps))"
  shows "\<forall>x \<in> set ps. \<exists>t \<in> set (prob_tokens tag l). flt t = Some x"
proof -
  from assms have sw: "startswith l tag" by (auto simp: record_line_def split: if_splits)
  with assms obtain info probs where
    sp: "split_sep [tab] l = [info, probs]" and
    fl: "map_err (to_float flt) (split_ws probs) = Inr ps"
    by (auto simp: record_line_def and_then_eq_Inr split: list.splits)
  from fl have "list_all2 (\<lambda>t x. to_float flt t = Inr x) (split_ws probs) ps"
    by (rule map_err_Inr_all2)
  then have "\<forall>x \<in> set ps. \<exists>t \<in> set (split_ws probs). flt t = Some x"
    by (induction rule: list_all2_induct) (auto simp: to_float_Inr)
  with sw sp show ?thesis by (simp add: prob_tokens_def)
qed

lemma read_records_index_ok:
  assumes "read_records tag mk_key flt [] ls = Inr s"
    and "\<forall>l \<in> set ls. \<forall>t \<in> set (prob_tokens tag l). \<exists>x. flt t = Some x \<and> finite_nonneg x"
  shows "index_ok s"
  using assms(1)
proof (rule read_records_invariant)
  show "index_ok []" by (simp add: index_ok_def)
next
  fix s' l c k v
  assume ok: "index_ok s'" and l: "l \<in> set ls"
    and r: "record_line tag mk_key flt l = Inr (Some (c, k, v))"
  from r have tok: "\<forall>x \<in> set v. \<exists>t \<in> set (prob_tokens tag l). flt t = Some x"
    by (rule record_line_tokens)
  have "\<forall>x \<in> set v. finite_nonneg x"
  proof
    fix x assume "x \<in> set v"
    with tok obtain t where t: "t \<in> set (prob_tokens tag l)" "flt t = Some x" by blast
    with assms(2) l obtain y where "flt t = Some y" "finite_nonneg y" by blast
    with t(2) show "finite_nonneg x" by simp
  qed
  with ok show "index_ok (store s' c k v)" by (rule index_ok_store)
qed

lemma card_data_ok: "index_ok s \<Longrightarrow> card_data_of s c = Inr d \<Longrightarrow> vectors_ok d"
  by (auto simp: card_data_of_def index_ok_def split: option.splits dest: map_of_SomeD)

lemma rows_of_entries:
  assumes "row \<in> set (rows_of n cols)" and "x \<in> set row" and "\<forall>col \<in> set cols. length col = n"
  shows "\<exists>col \<in> set cols. x \<in> set col"
proof -
  from assms(1) obtain r where r: "r < n" "row = map (\<lambda>col. col ! r) cols"
    by (auto simp: rows_of_def)
  with assms(2) obtain col where col: "col \<in> set cols" "x = col ! r" by auto
  with assms(3) r(1) have "r < length col" by simp
  then have "col ! r \<in> set col" by (rule nth_mem)
  with col show ?thesis by blast
qed

lemma all_entries_list_all:
  "\<forall>row \<in> set rows. \<forall>x \<in> set row. P x \<Longrightarrow> list_all (list_all P) rows"
  by (simp add: list_all_iff)

lemma tokens_ok_iff:
  "list_all (\<lambda>t. case flt t of Some x \<Rightarrow> finite_nonneg x | None \<Rightarrow> False) ts
     \<longleftrightarrow> (\<forall>t \<in> set ts. \<exists>x. flt t = Some x \<and> finite_nonneg x)"
  by (induction ts) (auto split: option.splits)

subsection \<open>Record lines with the same card and key\<close>

lemma vector_at_store:
  "vector_at (store s c k v) c' k' = (if c' = c \<and> k' = k then Some v else vector_at s c' k')"
  by (auto simp: vector_at_def store_def update_conv' dict_get_def split: option.splits)

lemma cards_store: "fst ` set (store s c k v) = insert c (fst ` set s)"
  by (simp add: store_def dom_update)

lemma same_index_store: "same_index s s' \<Longrightarrow> same_index (store s c k v) (store s' c k v)"
  by (simp add: same_index_def vector_at_store cards_store)

lemma read_records_append:
  "read_records tag mk_key flt s (xs @ ys) =
     and_then (read_records tag mk_key flt s xs) (\<lambda>s'. read_records tag mk_key flt s' ys)"
  by (induction xs arbitrary: s) (auto split: sum.splits option.splits)

lemma read_records_related:
  assumes "Q s s'" and "\<And>s s' c k v. Q s s' \<Longrightarrow> Q (store s c k v) (store s' c k v)"
  shows "rel_sum (=) Q (read_records tag mk_key flt s ls) (read_records tag mk_key flt s' ls)"
  using assms(1)
proof (induction ls arbitrary: s s')
  case Nil
  then show ?case by simp
next
  case (Cons l ls)
  show ?case
  proof (cases "record_line tag mk_key flt l")
    case (Inl e)
    then show ?thesis by simp
  next
    case (Inr r)
    show ?thesis
    proof (cases r)
      case None
      with Inr Cons.IH [OF Cons.prems] show ?thesis by simp
    next
      case (Some rec)
      obtain c k v where "rec = (c, k, v)" by (cases rec)
      moreover from Cons.prems have "Q (store s c k v) (store s' c k v)" by (rule assms(2))
      ultimately show ?thesis using Inr Some Cons.IH by simp
    qed
  qed
qed

lemma and_then_related:
  "(\<And>x. rel_sum (=) Q (f x) (g x)) \<Longrightarrow> rel_sum (=) Q (and_then m f) (and_then m g)"
  by (cases m) simp_all

lemma read_records_keeps_vector:
  assumes "read_records tag mk_key flt s ls = Inr s'"
    and "\<forall>l \<in> set ls. \<forall>v. record_line tag mk_key flt l \<noteq> Inr (Some (c, k, v))"
  shows "vector_at s' c k = vector_at s c k"
  using assms(1)
proof (rule read_records_invariant)
  show "vector_at s c k = vector_at s c k" by simp
next
  fix t l c' k' v
  assume "vector_at t c k = vector_at s c k" and "l \<in> set ls"
    and "record_line tag mk_key flt l = Inr (Some (c', k', v))"
  with assms(2) show "vector_at (store t c' k' v) c k = vector_at s c k"
    by (auto simp: vector_at_store)
qed

lemma record_line_startswith:
  "record_line tag mk_key flt l = Inr (Some r) \<Longrightarrow> startswith l tag"
  by (auto simp: record_line_def split: if_splits)

text \<open>The record lines of one file with and without an earlier line of the same card and key.\<close>

lemma duplicate_record_lines:
  assumes "record_line tag mk_key flt l1 = Inr (Some (c, k, v1))"
    and "record_line tag mk_key flt l2 = Inr (Some (c, k, v2))"
  shows "rel_sum (=) same_index
           (read_records tag mk_key flt s (xs @ l1 # ms @ l2 # ps))
           (read_records tag mk_key flt s (xs @ ms @ l2 # ps))"
proof -
  define Q where "Q = (\<lambda>a b. fst ` set a = insert c (fst ` set b)
      \<and> (\<forall>c' k'. c' \<noteq> c \<or> k' \<noteq> k \<longrightarrow> vector_at a c' k' = vector_at b c' k'))"
  have Q_store: "Q (store a c' k' v) (store b c' k' v)" if "Q a b" for a b c' k' v
    using that by (auto simp: Q_def vector_at_store cards_store)
  have Q_same: "same_index (store a c k v2) (store b c k v2)" if "Q a b" for a b
    using that by (auto simp: Q_def same_index_def vector_at_store cards_store)
  have after_l2: "rel_sum (=) same_index
      (read_records tag mk_key flt a (l2 # ps)) (read_records tag mk_key flt b (l2 # ps))"
    if "Q a b" for a b
    using assms(2) read_records_related [of same_index "store a c k v2" "store b c k v2"]
      Q_same [OF that] same_index_store by simp
  have after_ms: "rel_sum (=) same_index
      (read_records tag mk_key flt a (ms @ l2 # ps)) (read_records tag mk_key flt b (ms @ l2 # ps))"
    if "Q a b" for a b
  proof -
    from that Q_store
    have "rel_sum (=) Q (read_records tag mk_key flt a ms) (read_records tag mk_key flt b ms)"
      by (rule read_records_related)
    then show ?thesis
      by (cases "read_records tag mk_key flt a ms"; cases "read_records tag mk_key flt b ms")
         (simp_all add: read_records_append after_l2 del: read_records.simps)
  qed
  have "rel_sum (=) same_index
      (read_records tag mk_key flt t (l1 # ms @ l2 # ps)) (read_records tag mk_key flt t (ms @ l2 # ps))"
    for t
  proof -
    have "Q (store t c k v1) t" by (auto simp: Q_def vector_at_store cards_store)
    then show ?thesis using assms(1) after_ms by simp
  qed
  then show ?thesis by (simp add: read_records_append and_then_related)
qed

lemma later_record_stored:
  assumes "record_line tag mk_key flt l2 = Inr (Some (c, k, v2))"
    and "\<forall>l \<in> set ps. \<forall>v. record_line tag mk_key flt l \<noteq> Inr (Some (c, k, v))"
    and "read_records tag mk_key flt s (xs @ l2 # ps) = Inr s'"
  shows "vector_at s' c k = Some v2"
proof -
  from assms(3) obtain t where t: "read_records tag mk_key flt s xs = Inr t"
    and run: "read_records tag mk_key flt t (l2 # ps) = Inr s'"
    by (auto simp: read_records_append and_then_eq_Inr)
  from run assms(1) have "read_records tag mk_key flt (store t c k v2) ps = Inr s'" by simp
  from this assms(2) have "vector_at s' c k = vector_at (store t c k v2) c k"
    by (rule read_records_keeps_vector)
  then show ?thesis by (simp add: vector_at_store)
qed

lemma column_p0_cong: "map_of d = map_of d' \<Longrightarrow> column_p0 d = column_p0 d'"
  by (simp add: column_p0_def check_prob_p0_def bet_prob_p0_def check_actions_p0_def
      bet_actions_p0_def dict_get_def)

lemma columns_p1_cong: "map_of d = map_of d' \<Longrightarrow> columns_p1 d = columns_p1 d'"
  by (simp add: columns_p1_def column_checked_to_def column_bet_into_def checked_to_probs_def
      raise_response_probs_def bet_into_probs_def dict_get_def)

lemma same_index_card_data:
  assumes "same_index s s'" and "\<And>d d'. map_of d = map_of d' \<Longrightarrow> f d = f d'"
  shows "and_then (card_data_of s c) f = and_then (card_data_of s' c) f"
proof (cases "map_of s c")
  case None
  then have "c \<notin> fst ` set s" by (simp add: map_of_eq_None_iff)
  with assms(1) have "c \<notin> fst ` set s'" by (simp add: same_index_def)
  then have "map_of s' c = None" by (simp add: map_of_eq_None_iff)
  with None show ?thesis by (simp add: card_data_of_def)
next
  case (Some d)
  then have "c \<in> fst ` set s" by (metis map_of_eq_None_iff option.distinct(1))
  with assms(1) have "c \<in> fst ` set s'" by (simp add: same_index_def)
  then obtain d' where d': "map_of s' c = Some d'"
    by (metis map_of_eq_None_iff option.exhaust)
  from assms(1) have "\<forall>k. vector_at s c k = vector_at s' c k" by (simp add: same_index_def)
  with Some d' have "map_of d = map_of d'" by (auto simp: vector_at_def fun_eq_iff)
  then have "f d = f d'" by (rule assms(2))
  with Some d' show ?thesis by (simp add: card_data_of_def)
qed

lemma rank_cards_found:
  "list_all (\<lambda>c. case str_index card_order c of Inl e \<Rightarrow> False | Inr i \<Rightarrow> True) rank_cards"
  by code_simp

lemma rank_cards_distinct: "distinct (map (str_index card_order) rank_cards)"
  by code_simp

lemma sorted_cards_same:
  assumes "same_index s s'" and "distinct (map fst s)" and "distinct (map fst s')"
    and "fst ` set s \<subseteq> set rank_cards"
  shows "sorted_cards s = sorted_cards s'"
proof -
  define r where "r = (\<lambda>c. case str_index card_order c of Inl e \<Rightarrow> 0 | Inr i \<Rightarrow> i)"
  define key where "key = (\<lambda>c. (r c, c))"
  have found: "str_index card_order c = Inr (r c)" if "c \<in> set rank_cards" for c
    using that rank_cards_found by (auto simp: list_all_iff r_def split: sum.splits)
  have inj: "inj_on (str_index card_order) (set rank_cards)"
    using rank_cards_distinct by (simp add: distinct_map)
  have r_inj: "c = c'" if "c \<in> set rank_cards" "c' \<in> set rank_cards" "r c = r c'" for c c'
  proof -
    from that have "str_index card_order c = str_index card_order c'" by (simp add: found)
    with inj that(1,2) show ?thesis by (auto dest: inj_onD)
  qed
  have keyed: "map_err card_key cs = Inr (map key cs)" if "set cs \<subseteq> set rank_cards" for cs
  proof (rule all2_map_err_Inr)
    from that have "\<forall>c \<in> set cs. card_key c = Inr (key c)"
      by (auto simp: card_key_def key_def found)
    then show "list_all2 (\<lambda>c y. card_key c = Inr y) cs (map key cs)"
      by (simp add: list_all2_map2 list_all2_same)
  qed
  have sorted_eq: "sorted_cards t = Inr (map snd (sort_key fst (map key (map fst t))))"
    if "fst ` set t \<subseteq> set rank_cards" for t
    using keyed [of "map fst t"] that by (simp add: sorted_cards_def)
  let ?K = "map key (map fst s)" and ?K' = "map key (map fst s')"
  from assms(1) have cards: "fst ` set s = fst ` set s'" by (simp add: same_index_def)
  with assms(4) have ranks': "fst ` set s' \<subseteq> set rank_cards" by simp
  have Kset: "set ?K = key ` (fst ` set s)" by (simp add: image_image)
  also have "\<dots> = key ` (fst ` set s')" by (simp only: cards)
  also have "\<dots> = set ?K'" by (simp add: image_image)
  finally have set_eq: "set ?K = set ?K'" .
  have inj_fst: "inj_on fst (set ?K \<union> set ?K')"
    unfolding set_eq [symmetric] Un_absorb Kset
  proof (rule inj_onI)
    fix y y' assume y: "y \<in> key ` (fst ` set s)" and y': "y' \<in> key ` (fst ` set s)"
      and eq: "fst y = fst y'"
    from y obtain c where c: "c \<in> fst ` set s" "y = key c" by blast
    from y' obtain c' where c': "c' \<in> fst ` set s" "y' = key c'" by blast
    from eq c(2) c'(2) have "r c = r c'" by (simp add: key_def)
    moreover from c(1) c'(1) assms(4) have "c \<in> set rank_cards" "c' \<in> set rank_cards" by auto
    ultimately have "c = c'" using r_inj by blast
    with c(2) c'(2) show "y = y'" by simp
  qed
  have inj_key: "inj_on key A" for A by (auto simp: key_def inj_on_def)
  have dist: "distinct ?K" "distinct ?K'"
    unfolding distinct_map [of key] using assms(2,3) inj_key by blast+
  have "sort_key fst ?K = sort_key fst ?K'"
  proof (rule map_sorted_distinct_set_unique [where f = fst])
    show "inj_on fst (set (sort_key fst ?K) \<union> set (sort_key fst ?K'))"
      using inj_fst by simp
    show "sorted (map fst (sort_key fst ?K))" by (rule sorted_sort_key)
    show "sorted (map fst (sort_key fst ?K'))" by (rule sorted_sort_key)
    show "distinct (map fst (sort_key fst ?K))"
      using dist(1) inj_fst by (simp add: distinct_map inj_on_Un)
    show "distinct (map fst (sort_key fst ?K'))"
      using dist(2) inj_fst by (simp add: distinct_map inj_on_Un)
    show "set (sort_key fst ?K) = set (sort_key fst ?K')" using set_eq by simp
  qed
  with sorted_eq [OF assms(4)] sorted_eq [OF ranks'] show ?thesis by simp
qed

lemma table_p0_same:
  assumes "same_index s s'" and "distinct (map fst s)" and "distinct (map fst s')"
    and "fst ` set s \<subseteq> set rank_cards"
  shows "table_p0 s = table_p0 s'"
proof -
  from assms have "sorted_cards s = sorted_cards s'" by (rule sorted_cards_same)
  moreover have "(\<lambda>c. and_then (card_data_of s c) column_p0) =
      (\<lambda>c. and_then (card_data_of s' c) column_p0)"
    using same_index_card_data [OF assms(1), of column_p0] column_p0_cong by blast
  ultimately show ?thesis by (simp add: table_p0_def)
qed

lemma tables_p1_same:
  assumes "same_index s s'" and "distinct (map fst s)" and "distinct (map fst s')"
    and "fst ` set s \<subseteq> set rank_cards"
  shows "tables_p1 s = tables_p1 s'"
proof -
  from assms have "sorted_cards s = sorted_cards s'" by (rule sorted_cards_same)
  moreover have "(\<lambda>c. and_then (card_data_of s c) columns_p1) =
      (\<lambda>c. and_then (card_data_of s' c) columns_p1)"
    using same_index_card_data [OF assms(1), of columns_p1] columns_p1_cong by blast
  ultimately show ?thesis by (simp add: tables_p1_def)
qed

lemma record_line_in_section:
  assumes "startswith (strip l) tag" and "tag \<noteq> []"
    and "\<not> startswith marker tag" and "\<not> startswith ''END'' tag"
  shows "player_lines marker True (l # rest) = strip l # player_lines marker True rest"
    and "in_player_after marker b (l # rest) = in_player_after marker b rest"
proof -
  from assms(1,2) have ne: "strip l \<noteq> []" by (auto simp: startswith_def)
  from assms(1,3) have nm: "strip l \<noteq> marker" by auto
  from assms(1,4) have nend: "strip l \<noteq> ''END''" by auto
  from ne nm nend show "player_lines marker True (l # rest) = strip l # player_lines marker True rest"
    by simp
  from nm nend show "in_player_after marker b (l # rest) = in_player_after marker b rest"
    by simp
qed

lemma duplicate_file_lines:
  assumes "tag \<noteq> []" and "\<not> startswith marker tag" and "\<not> startswith ''END'' tag"
    and "in_player_after marker False pre"
    and "in_player_after marker False (pre @ line1 # mid)"
    and "startswith (strip line1) tag" and "startswith (strip line2) tag"
  shows "player_lines marker False (pre @ line1 # mid @ line2 # post) =
           player_lines marker False pre @ strip line1 # player_lines marker True mid
             @ strip line2 # player_lines marker True post"
    and "player_lines marker False (pre @ mid @ line2 # post) =
           player_lines marker False pre @ player_lines marker True mid
             @ strip line2 # player_lines marker True post"
proof -
  note l1 = record_line_in_section [OF assms(6) assms(1-3)]
  note l2 = record_line_in_section [OF assms(7) assms(1-3)]
  from assms(4) have pre: "in_player_after marker False pre = True" by simp
  from assms(5) have mid: "in_player_after marker True mid = True"
    by (simp add: in_player_after_append pre l1(2) del: in_player_after.simps)
  show "player_lines marker False (pre @ line1 # mid @ line2 # post) =
           player_lines marker False pre @ strip line1 # player_lines marker True mid
             @ strip line2 # player_lines marker True post"
    by (simp add: player_lines_append pre mid l1(1) l2(1) del: player_lines.simps)
  show "player_lines marker False (pre @ mid @ line2 # post) =
           player_lines marker False pre @ player_lines marker True mid
             @ strip line2 # player_lines marker True post"
    by (simp add: player_lines_append pre mid l2(1) del: player_lines.simps)
qed

lemma duplicate_line_generic:
  fixes T :: "strategies \<Rightarrow> error + 'a" and post :: "string list"
  assumes tag: "tag \<noteq> []" "\<not> startswith marker tag" "\<not> startswith ''END'' tag"
    and in1: "in_player_after marker False pre"
    and in2: "in_player_after marker False (pre @ line1 # mid)"
    and r1: "record_line tag mk_key flt (strip line1) = Inr (Some (c, k, v1))"
    and r2: "record_line tag mk_key flt (strip line2) = Inr (Some (c, k, v2))"
    and T_same: "\<And>s s'. same_index s s' \<Longrightarrow> distinct (map fst s) \<Longrightarrow> distinct (map fst s')
           \<Longrightarrow> fst ` set s \<subseteq> set rank_cards \<Longrightarrow> T s = T s'"
  defines "A \<equiv> read_records tag mk_key flt [] (player_lines marker False (pre @ line1 # mid @ line2 # post))"
    and "B \<equiv> read_records tag mk_key flt [] (player_lines marker False (pre @ mid @ line2 # post))"
  shows "((\<exists>e. A = Inl e \<and> B = Inl e) \<or> (\<exists>s s'. A = Inr s \<and> B = Inr s' \<and> same_index s s'))
     \<and> (\<forall>s. A = Inr s
            \<and> (\<forall>l \<in> set (player_lines marker True post).
                  \<forall>v. record_line tag mk_key flt l \<noteq> Inr (Some (c, k, v)))
          \<longrightarrow> vector_at s c k = Some v2)
     \<and> ((\<forall>s. A = Inr s \<longrightarrow> fst ` set s \<subseteq> set rank_cards) \<longrightarrow> and_then A T = and_then B T)"
proof -
  from r1 have s1: "startswith (strip line1) tag" by (rule record_line_startswith)
  from r2 have s2: "startswith (strip line2) tag" by (rule record_line_startswith)
  note lines = duplicate_file_lines [OF tag in1 in2 s1 s2, of post]
  let ?X = "player_lines marker False pre" and ?M = "player_lines marker True mid"
    and ?P = "player_lines marker True post"
  have rel: "rel_sum (=) same_index A B"
    unfolding A_def B_def lines using r1 r2 by (rule duplicate_record_lines)
  then have first: "(\<exists>e. A = Inl e \<and> B = Inl e) \<or> (\<exists>s s'. A = Inr s \<and> B = Inr s' \<and> same_index s s')"
    by (cases A; cases B) simp_all
  have second: "vector_at s c k = Some v2"
    if "A = Inr s" "\<forall>l \<in> set ?P. \<forall>v. record_line tag mk_key flt l \<noteq> Inr (Some (c, k, v))" for s
  proof -
    from that(1) have "read_records tag mk_key flt [] ((?X @ strip line1 # ?M) @ strip line2 # ?P) = Inr s"
      by (simp add: A_def lines)
    with r2 that(2) show ?thesis by (rule later_record_stored)
  qed
  have third: "and_then A T = and_then B T" if ranks: "\<forall>s. A = Inr s \<longrightarrow> fst ` set s \<subseteq> set rank_cards"
  proof (cases A)
    case (Inl e)
    with first show ?thesis by auto
  next
    case (Inr s)
    with first obtain s' where s': "B = Inr s'" "same_index s s'" by auto
    from Inr have "distinct (map fst s)" unfolding A_def by (rule read_records_distinct)
    moreover from s'(1) have "distinct (map fst s')" unfolding B_def by (rule read_records_distinct)
    moreover from ranks Inr have "fst ` set s \<subseteq> set rank_cards" by simp
    ultimately have "T s = T s'" using s'(2) by (intro T_same)
    with Inr s'(1) show ?thesis by simp
  qed
  show ?thesis
  proof (intro conjI allI impI)
    show "(\<exists>e. A = Inl e \<and> B = Inl e) \<or> (\<exists>s s'. A = Inr s \<and> B = Inr s' \<and> same_index s s')"
      by (rule first)
  next
    fix s
    assume "A = Inr s
            \<and> (\<forall>l \<in> set (player_lines marker True post).
                  \<forall>v. record_line tag mk_key flt l \<noteq> Inr (Some (c, k, v)))"
    then show "vector_at s c k = Some v2" using second [of s] by (elim conjE)
  next
    assume "\<forall>s. A = Inr s \<longrightarrow> fst ` set s \<subseteq> set rank_cards"
    then show "and_then A T = and_then B T" by (rule third)
  qed
qed

section \<open>The end-to-end scenario\<close>



section \<open>Default vectors\<close>

text \<open>
  In \<^verbatim>\<open>parse_strategy_p0.py\<close> the default of the call/fold decision after BET, RAISE is
  \<^verbatim>\<open>[0, 0]\<close>: for card A with the root record only, the lookup of the missing decision
  has probability 0 on FOLD, not 1 as claim C2 says of a missing fold/call decision, and
  every row of the card is 0.
\<close>

theorem missing_call_fold_default_p0:
  "strategies_p0 py_float root_only_dump =
     Inr [(''A'', [(''|BET,CHECK'', [Fin (7 / 10), Fin (3 / 10)])])]
   \<and> map_of [(''|BET,CHECK'', [Fin (7 / 10), Fin (3 / 10)])] ''BET, RAISE|CALLRAISE,FOLD'' = None
   \<and> bet_actions_p0 [(''|BET,CHECK'', [Fin (7 / 10), Fin (3 / 10)])] = [Fin 0, Fin 0]
   \<and> item (bet_actions_p0 [(''|BET,CHECK'', [Fin (7 / 10), Fin (3 / 10)])]) 1 \<noteq> Inr (Fin 1)
   \<and> parse_strategy_file_p0 py_float root_only_dump =
     Inr \<lparr>df_columns = [''A''], df_index = index_p0,
          df_data = [[Fin 0], [Fin 0], [Fin 0], [Fin 0], [Fin 0]]\<rparr>"
  by code_simp

text \<open>
  Claim C2, amended: where the key of a decision point is absent from a card's
  dictionary, the lookup yields the default written at that lookup and nothing raises.
  In \<^verbatim>\<open>parse_strategy_p1.py\<close> the checked-to decision defaults to \<^verbatim>\<open>[0, 1]\<close> (always
  check), the call/fold decision after a raise to \<^verbatim>\<open>[0, 1]\<close> (always fold) and the
  bet-into decision to \<^verbatim>\<open>[0, 0, 0]\<close>. In \<^verbatim>\<open>parse_strategy_p0.py\<close> the call/fold
  decision after BET, RAISE defaults to \<^verbatim>\<open>[0, 0]\<close> and the decision after CHECK, BET to
  \<^verbatim>\<open>[0, 0, 0]\<close>, with no probability on FOLD, and the root decision defaults to
  \<^verbatim>\<open>[0, 1]\<close> where the check probability is read and to \<^verbatim>\<open>[1, 0]\<close> where the bet
  probability is read. A card with none of a script's keys gets the columns of zeros
  (first-to-act), 0, 0, 1 (checked-to) and zeros (bet-into).
\<close>

theorem missing_decision_defaults:
  "(map_of cd ''|BET,CHECK'' = None \<longrightarrow>
      check_prob_p0 cd = Inr (Fin 1) \<and> bet_prob_p0 cd = Inr (Fin 1))
   \<and> (map_of cd ''CHECK, BET|CALLBET,FOLD,RAISE'' = None \<longrightarrow>
      check_actions_p0 cd = [Fin 0, Fin 0, Fin 0])
   \<and> (map_of cd ''BET, RAISE|CALLRAISE,FOLD'' = None \<longrightarrow>
      bet_actions_p0 cd = [Fin 0, Fin 0])
   \<and> (map_of cd ''CHECK|BET,CHECK'' = None \<longrightarrow>
      checked_to_probs cd = [Fin 0, Fin 1])
   \<and> (map_of cd ''CHECK, BET, RAISE|CALLRAISE,FOLD'' = None \<longrightarrow>
      raise_response_probs cd = [Fin 0, Fin 1])
   \<and> (map_of cd ''BET|CALLBET,FOLD,RAISE'' = None \<longrightarrow>
      bet_into_probs cd = [Fin 0, Fin 0, Fin 0])
   \<and> (map_of cd ''|BET,CHECK'' = None \<and> map_of cd ''CHECK, BET|CALLBET,FOLD,RAISE'' = None
        \<and> map_of cd ''BET, RAISE|CALLRAISE,FOLD'' = None \<longrightarrow>
      column_p0 cd = Inr [Fin 0, Fin 0, Fin 0, Fin 0, Fin 0])
   \<and> (map_of cd ''CHECK|BET,CHECK'' = None
        \<and> map_of cd ''CHECK, BET, RAISE|CALLRAISE,FOLD'' = None \<longrightarrow>
      column_checked_to cd = Inr [Fin 0, Fin 0, Fin 1])
   \<and> (map_of cd ''BET|CALLBET,FOLD,RAISE'' = None \<longrightarrow>
      column_bet_into cd = Inr [Fin 0, Fin 0, Fin 0])"
  by (simp add: check_prob_p0_def bet_prob_p0_def check_actions_p0_def bet_actions_p0_def
      checked_to_probs_def raise_response_probs_def bet_into_probs_def column_p0_def
      column_checked_to_def column_bet_into_def dict_get_absent item_def)

theorem missing_decision_defaults_witness:
  "map_of ([] :: card_data) ''|BET,CHECK'' = None
   \<and> map_of ([] :: card_data) ''CHECK, BET|CALLBET,FOLD,RAISE'' = None
   \<and> map_of ([] :: card_data) ''BET, RAISE|CALLRAISE,FOLD'' = None
   \<and> map_of ([] :: card_data) ''CHECK|BET,CHECK'' = None
   \<and> map_of ([] :: card_data) ''CHECK, BET, RAISE|CALLRAISE,FOLD'' = None
   \<and> map_of ([] :: card_data) ''BET|CALLBET,FOLD,RAISE'' = None
   \<and> check_prob_p0 [] = Inr (Fin 1) \<and> bet_prob_p0 [] = Inr (Fin 1)
   \<and> check_actions_p0 [] = [Fin 0, Fin 0, Fin 0]
   \<and> bet_actions_p0 [] = [Fin 0, Fin 0]
   \<and> checked_to_probs [] = [Fin 0, Fin 1]
   \<and> raise_response_probs [] = [Fin 0, Fin 1]
   \<and> bet_into_probs [] = [Fin 0, Fin 0, Fin 0]
   \<and> column_p0 [] = Inr [Fin 0, Fin 0, Fin 0, Fin 0, Fin 0]
   \<and> column_checked_to [] = Inr [Fin 0, Fin 0, Fin 1]
   \<and> column_bet_into [] = Inr [Fin 0, Fin 0, Fin 0]"
  using missing_decision_defaults [of "[]"] by simp

text \<open>
  Claim C9: for a card of player 0's index with no record under \<^verbatim>\<open>"|BET,CHECK"\<close>, the
  two lookups of the root decision use different defaults, so the check probability
  is 1 and the bet probability is 1 at once: the three CHECK rows are 1 times the
  entries of the vector after CHECK, BET and the two BET rows are 1 times the entries of
  the vector after BET, RAISE. When these two vectors are finite and each sums to 1, the
  five entries of the card's column sum to 2.
\<close>

theorem missing_root_both_defaults:
  assumes "strategies_p0 flt lines = Inr strategies"
    and "parse_strategy_file_p0 flt lines = Inr df"
    and "i < length (df_columns df)"
    and "map_of strategies (df_columns df ! i) = Some cd"
    and "map_of cd ''|BET,CHECK'' = None"
  shows "check_prob_p0 cd = Inr (Fin 1) \<and> bet_prob_p0 cd = Inr (Fin 1)
     \<and> (\<exists>c0 c1 c2 b0 b1.
          take 3 (check_actions_p0 cd) = [c0, c1, c2] \<and> take 2 (bet_actions_p0 cd) = [b0, b1]
          \<and> map (\<lambda>row. row ! i) (df_data df) =
              [fmul (Fin 1) c1, fmul (Fin 1) c0, fmul (Fin 1) c2, fmul (Fin 1) b1, fmul (Fin 1) b0])
     \<and> (\<forall>c0 c1 c2 b0 b1.
          check_actions_p0 cd = [Fin c0, Fin c1, Fin c2] \<and> bet_actions_p0 cd = [Fin b0, Fin b1]
          \<and> c0 + c1 + c2 = 1 \<and> b0 + b1 = 1 \<longrightarrow>
          (\<exists>x0 x1 x2 x3 x4.
             map (\<lambda>row. row ! i) (df_data df) = [Fin x0, Fin x1, Fin x2, Fin x3, Fin x4]
             \<and> x0 + x1 + x2 + x3 + x4 = 2))"
proof -
  from assms(1,2) have "table_p0 strategies = Inr df" by (rule parse_p0_table)
  from table_p0_column [OF this assms(3)] assms(4)
  have col: "column_p0 cd = Inr (map (\<lambda>row. row ! i) (df_data df))" by simp
  have cp: "check_prob_p0 cd = Inr (Fin 1)" and bp: "bet_prob_p0 cd = Inr (Fin 1)"
    using assms(5) by (simp_all add: check_prob_p0_def bet_prob_p0_def dict_get_absent item_def)
  from col cp bp obtain c1 c0 c2 b1 b0 where
    items: "item (check_actions_p0 cd) 1 = Inr c1" "item (check_actions_p0 cd) 0 = Inr c0"
      "item (check_actions_p0 cd) 2 = Inr c2" "item (bet_actions_p0 cd) 1 = Inr b1"
      "item (bet_actions_p0 cd) 0 = Inr b0" and
    data: "map (\<lambda>row. row ! i) (df_data df) =
      [fmul (Fin 1) c1, fmul (Fin 1) c0, fmul (Fin 1) c2, fmul (Fin 1) b1, fmul (Fin 1) b0]"
    by (auto simp: column_p0_def and_then_eq_Inr Let_def)
  from items(2,1,3) have t3: "take 3 (check_actions_p0 cd) = [c0, c1, c2]"
    by (rule take3_items)
  from items(5,4) have t2: "take 2 (bet_actions_p0 cd) = [b0, b1]"
    by (rule take2_items)
  have sums: "\<exists>x0 x1 x2 x3 x4.
             map (\<lambda>row. row ! i) (df_data df) = [Fin x0, Fin x1, Fin x2, Fin x3, Fin x4]
             \<and> x0 + x1 + x2 + x3 + x4 = 2"
    if "check_actions_p0 cd = [Fin x, Fin y, Fin z]" "bet_actions_p0 cd = [Fin u, Fin v]"
       "x + y + z = 1" "u + v = 1" for x y z u v
  proof -
    from that(1,2) items have "c1 = Fin y" "c0 = Fin x" "c2 = Fin z" "b1 = Fin v" "b0 = Fin u"
      by (simp_all add: item_def)
    with data have "map (\<lambda>row. row ! i) (df_data df) = [Fin y, Fin x, Fin z, Fin v, Fin u]"
      by simp
    moreover from that(3,4) have "y + x + z + v + u = 2" by simp
    ultimately show ?thesis by (intro exI conjI)
  qed
  from t3 t2 data have ex: "\<exists>c0 c1 c2 b0 b1.
          take 3 (check_actions_p0 cd) = [c0, c1, c2] \<and> take 2 (bet_actions_p0 cd) = [b0, b1]
          \<and> map (\<lambda>row. row ! i) (df_data df) =
              [fmul (Fin 1) c1, fmul (Fin 1) c0, fmul (Fin 1) c2, fmul (Fin 1) b1, fmul (Fin 1) b0]"
    by (intro exI conjI)
  from cp bp ex sums show ?thesis by (intro conjI allI impI; (elim conjE)?; assumption?)
qed

theorem missing_root_both_defaults_witness:
  "strategies_p0 py_float no_root_dump =
     Inr [(''A'',
           [(''CHECK, BET|CALLBET,FOLD,RAISE'', [Fin (1 / 5), Fin (3 / 5), Fin (1 / 5)]),
            (''BET, RAISE|CALLRAISE,FOLD'', [Fin (9 / 10), Fin (1 / 10)])])]
   \<and> parse_strategy_file_p0 py_float no_root_dump =
     Inr \<lparr>df_columns = [''A''], df_index = index_p0,
          df_data = [[Fin (3 / 5)], [Fin (1 / 5)], [Fin (1 / 5)], [Fin (1 / 10)],
                     [Fin (9 / 10)]]\<rparr>
   \<and> check_prob_p0 [(''CHECK, BET|CALLBET,FOLD,RAISE'', [Fin (1 / 5), Fin (3 / 5), Fin (1 / 5)]),
            (''BET, RAISE|CALLRAISE,FOLD'', [Fin (9 / 10), Fin (1 / 10)])] = Inr (Fin 1)
   \<and> bet_prob_p0 [(''CHECK, BET|CALLBET,FOLD,RAISE'', [Fin (1 / 5), Fin (3 / 5), Fin (1 / 5)]),
            (''BET, RAISE|CALLRAISE,FOLD'', [Fin (9 / 10), Fin (1 / 10)])] = Inr (Fin 1)
   \<and> (3 / 5 + 1 / 5 + 1 / 5 + 1 / 10 + 9 / 10 :: real) = 2"
proof -
  let ?cd = "[(''CHECK, BET|CALLBET,FOLD,RAISE'', [Fin (1 / 5), Fin (3 / 5), Fin (1 / 5)]),
            (''BET, RAISE|CALLRAISE,FOLD'', [Fin (9 / 10), Fin (1 / 10)])]"
  let ?df = "\<lparr>df_columns = [''A''], df_index = index_p0,
          df_data = [[Fin (3 / 5)], [Fin (1 / 5)], [Fin (1 / 5)], [Fin (1 / 10)],
                     [Fin (9 / 10)]]\<rparr>"
  have s: "strategies_p0 py_float no_root_dump = Inr [(''A'', ?cd)]"
    by code_simp
  have p: "parse_strategy_file_p0 py_float no_root_dump = Inr ?df"
    by code_simp
  have i: "0 < length (df_columns ?df)" by simp
  have m: "map_of [(''A'', ?cd)] (df_columns ?df ! 0) = Some ?cd" by simp
  have k: "map_of ?cd ''|BET,CHECK'' = None" by simp
  from missing_root_both_defaults [OF s p i m k] s p show ?thesis
    by simp
qed

section \<open>Sums over the branches\<close>






section \<open>Malformed lines\<close>

text \<open>
  Claim C5: when the file has, after a line that opens a player's section and with no
  \<^verbatim>\<open>END\<close> line in between, a line that begins with that player's tag and contains no
  tab, the run of that player's script raises (the unpacking of \<^verbatim>\<open>line.split("\t")\<close>
  fails, unless an earlier line has raised already) and no table is returned.
\<close>

theorem record_line_without_tab_fails:
  "(strip m = ''PLAYER: 0'' \<and> (\<forall>x \<in> set mid. strip x \<noteq> ''END'')
      \<and> startswith (strip l) ''[Player: 0'' \<and> tab \<notin> set l
     \<longrightarrow> (\<exists>e. parse_strategy_file_p0 flt (pre @ m # mid @ l # post) = Inl e))
   \<and> (strip m = ''PLAYER: 1'' \<and> (\<forall>x \<in> set mid. strip x \<noteq> ''END'')
      \<and> startswith (strip l) ''[Player: 1'' \<and> tab \<notin> set l
     \<longrightarrow> (\<exists>e. parse_strategy_file_p1 flt (pre @ m # mid @ l # post) = Inl e))"
proof (intro conjI impI; elim conjE)
  assume a: "strip m = ''PLAYER: 0''" "\<forall>x \<in> set mid. strip x \<noteq> ''END''"
    "startswith (strip l) ''[Player: 0''" "tab \<notin> set l"
  have "\<exists>e. read_records ''[Player: 0'' key_p0 flt []
          (player_lines ''PLAYER: 0'' False (pre @ m # mid @ l # post)) = Inl e"
    using a by (intro tabless_line_raises) (simp_all add: startswith_def)
  then show "\<exists>e. parse_strategy_file_p0 flt (pre @ m # mid @ l # post) = Inl e"
    by (auto simp: parse_strategy_file_p0_def strategies_p0_def)
next
  assume a: "strip m = ''PLAYER: 1''" "\<forall>x \<in> set mid. strip x \<noteq> ''END''"
    "startswith (strip l) ''[Player: 1''" "tab \<notin> set l"
  have "\<exists>e. read_records ''[Player: 1'' key_p1 flt []
          (player_lines ''PLAYER: 1'' False (pre @ m # mid @ l # post)) = Inl e"
    using a by (intro tabless_line_raises) (simp_all add: startswith_def)
  then show "\<exists>e. parse_strategy_file_p1 flt (pre @ m # mid @ l # post) = Inl e"
    by (auto simp: parse_strategy_file_p1_def strategies_p1_def)
qed

theorem record_line_without_tab_fails_witness:
  "strip (''PLAYER: 0'' @ [newline]) = ''PLAYER: 0''
   \<and> strip (''[Player: 0 Card: A, History:  Actions: BET, CHECK]'' @ [tab] @ ''0.7 0.3'' @ [newline]) \<noteq> ''END''
   \<and> startswith (strip (''[Player: 0 Card: K, History:  Actions: BET, CHECK] 0.5 0.5'' @ [newline])) ''[Player: 0''
   \<and> tab \<notin> set (''[Player: 0 Card: K, History:  Actions: BET, CHECK] 0.5 0.5'' @ [newline])
   \<and> (\<exists>e. parse_strategy_file_p0 py_float tabless_dump_p0 = Inl e)
   \<and> strip (''PLAYER: 1'' @ [newline]) = ''PLAYER: 1''
   \<and> strip (''[Player: 1 Card: A, History: CHECK Actions: BET, CHECK]'' @ [tab] @ ''0.7 0.3'' @ [newline]) \<noteq> ''END''
   \<and> startswith (strip (''[Player: 1 Card: K, History: CHECK Actions: BET, CHECK] 0.5 0.5'' @ [newline])) ''[Player: 1''
   \<and> tab \<notin> set (''[Player: 1 Card: K, History: CHECK Actions: BET, CHECK] 0.5 0.5'' @ [newline])
   \<and> (\<exists>e. parse_strategy_file_p1 py_float tabless_dump_p1 = Inl e)"
proof -
  let ?m0 = "''PLAYER: 0'' @ [newline]"
  let ?a0 = "''[Player: 0 Card: A, History:  Actions: BET, CHECK]'' @ [tab] @ ''0.7 0.3'' @ [newline]"
  let ?l0 = "''[Player: 0 Card: K, History:  Actions: BET, CHECK] 0.5 0.5'' @ [newline]"
  let ?m1 = "''PLAYER: 1'' @ [newline]"
  let ?a1 = "''[Player: 1 Card: A, History: CHECK Actions: BET, CHECK]'' @ [tab] @ ''0.7 0.3'' @ [newline]"
  let ?l1 = "''[Player: 1 Card: K, History: CHECK Actions: BET, CHECK] 0.5 0.5'' @ [newline]"
  have m0: "strip ?m0 = ''PLAYER: 0''" by code_simp
  have a0: "strip ?a0 \<noteq> ''END''" by code_simp
  have l0: "startswith (strip ?l0) ''[Player: 0''" by code_simp
  have t0: "tab \<notin> set ?l0" by code_simp
  have m1: "strip ?m1 = ''PLAYER: 1''" by code_simp
  have a1: "strip ?a1 \<noteq> ''END''" by code_simp
  have l1: "startswith (strip ?l1) ''[Player: 1''" by code_simp
  have t1: "tab \<notin> set ?l1" by code_simp
  have d0: "tabless_dump_p0 = [] @ ?m0 # [?a0] @ ?l0 # [''END'' @ [newline]]"
    by (simp add: tabless_dump_p0_def)
  have d1: "tabless_dump_p1 = [] @ ?m1 # [?a1] @ ?l1 # [''END'' @ [newline]]"
    by (simp add: tabless_dump_p1_def)
  from record_line_without_tab_fails [of ?m0 "[?a0]" ?l0 py_float "[]" "[''END'' @ [newline]]"]
  have e0: "\<exists>e. parse_strategy_file_p0 py_float tabless_dump_p0 = Inl e"
    unfolding d0 using m0 a0 l0 t0 by simp
  from record_line_without_tab_fails [of ?m1 "[?a1]" ?l1 py_float "[]" "[''END'' @ [newline]]"]
  have e1: "\<exists>e. parse_strategy_file_p1 py_float tabless_dump_p1 = Inl e"
    unfolding d1 using m1 a1 l1 t1 by simp
  from e0 e1 m0 a0 l0 t0 m1 a1 l1 t1 show ?thesis by (intro conjI)
qed

text \<open>
  A record line with two actions and three probabilities, or with three actions and four
  probabilities, is not rejected as claim C4 says: its vector is stored as it is and the
  tables are returned.
\<close>

theorem count_mismatch_not_rejected:
  "strategies_p0 py_float mismatch_dump_p0 =
     Inr [(''A'', [(''|BET,CHECK'', [Fin (7 / 10), Fin (2 / 10), Fin (1 / 10)])])]
   \<and> parse_strategy_file_p0 py_float mismatch_dump_p0 =
     Inr \<lparr>df_columns = [''A''], df_index = index_p0,
          df_data = [[Fin 0], [Fin 0], [Fin 0], [Fin 0], [Fin 0]]\<rparr>
   \<and> strategies_p1 py_float mismatch_dump_p1 =
     Inr [(''A'', [(''BET|CALLBET,FOLD,RAISE'',
                    [Fin (1 / 2), Fin (1 / 4), Fin (1 / 8), Fin (1 / 8)])])]
   \<and> parse_strategy_file_p1 py_float mismatch_dump_p1 =
     Inr (\<lparr>df_columns = [''A''], df_index = index_checked_to,
           df_data = [[Fin 0], [Fin 0], [Fin 1]]\<rparr>,
          \<lparr>df_columns = [''A''], df_index = index_bet_into,
           df_data = [[Fin (1 / 2)], [Fin (1 / 4)], [Fin (1 / 8)]]\<rparr>)"
  by code_simp

text \<open>
  Claim C4, amended: the number of probabilities of a line is not compared with the number
  of its actions. When a tagged line has one tab, each of its probability tokens is a
  float and its metadata field yields a card and a key, the pass stores the whole list of
  probabilities under that card and key, whatever its length.
\<close>

theorem count_mismatch_is_stored:
  assumes "startswith info tag" and "tab \<notin> set info" and "tab \<notin> set probs"
    and "map_err (to_float flt) (split_ws probs) = Inr ps"
    and "metadata mk_key info = Inr (crd, k)"
  shows "record_line tag mk_key flt (info @ tab # probs) = Inr (Some (crd, k, ps))
     \<and> read_records tag mk_key flt strategies ((info @ tab # probs) # lines) =
         read_records tag mk_key flt (store strategies crd k ps) lines"
proof -
  from assms(1) have "startswith (info @ tab # probs) tag" by (rule startswith_append)
  moreover from assms(2,3) have "split_sep [tab] (info @ tab # probs) = [info, probs]"
    by (rule split_tab_two)
  ultimately have "record_line tag mk_key flt (info @ tab # probs) = Inr (Some (crd, k, ps))"
    using assms(4,5) by (simp add: record_line_def)
  then show ?thesis by simp
qed

theorem count_mismatch_is_stored_witness:
  "startswith ''[Player: 0 Card: A, History:  Actions: BET, CHECK]'' ''[Player: 0''
   \<and> tab \<notin> set ''[Player: 0 Card: A, History:  Actions: BET, CHECK]''
   \<and> tab \<notin> set ''0.7 0.2 0.1''
   \<and> map_err (to_float py_float) (split_ws ''0.7 0.2 0.1'') = Inr [Fin (7 / 10), Fin (2 / 10), Fin (1 / 10)]
   \<and> metadata key_p0 ''[Player: 0 Card: A, History:  Actions: BET, CHECK]'' = Inr (''A'', ''|BET,CHECK'')
   \<and> record_line ''[Player: 0'' key_p0 py_float
        (''[Player: 0 Card: A, History:  Actions: BET, CHECK]'' @ tab # ''0.7 0.2 0.1'') =
      Inr (Some (''A'', ''|BET,CHECK'', [Fin (7 / 10), Fin (2 / 10), Fin (1 / 10)]))
   \<and> read_records ''[Player: 0'' key_p0 py_float []
        [''[Player: 0 Card: A, History:  Actions: BET, CHECK]'' @ tab # ''0.7 0.2 0.1''] =
      Inr (store [] ''A'' ''|BET,CHECK'' [Fin (7 / 10), Fin (2 / 10), Fin (1 / 10)])"
proof -
  let ?info = "''[Player: 0 Card: A, History:  Actions: BET, CHECK]''"
  let ?ps = "[Fin (7 / 10), Fin (2 / 10), Fin (1 / 10)]"
  have a: "startswith ?info ''[Player: 0''" by code_simp
  have b: "tab \<notin> set ?info" by code_simp
  have c: "tab \<notin> set ''0.7 0.2 0.1''" by code_simp
  have d: "map_err (to_float py_float) (split_ws ''0.7 0.2 0.1'') = Inr ?ps" by code_simp
  have e: "metadata key_p0 ?info = Inr (''A'', ''|BET,CHECK'')" by code_simp
  note r = count_mismatch_is_stored [OF a b c d e, of "[]" "[]"]
  from r have r1: "record_line ''[Player: 0'' key_p0 py_float (?info @ tab # ''0.7 0.2 0.1'') =
      Inr (Some (''A'', ''|BET,CHECK'', ?ps))" by (rule conjunct1)
  from r have "read_records ''[Player: 0'' key_p0 py_float [] [?info @ tab # ''0.7 0.2 0.1''] =
      read_records ''[Player: 0'' key_p0 py_float (store [] ''A'' ''|BET,CHECK'' ?ps) []"
    by (rule conjunct2)
  then have r2: "read_records ''[Player: 0'' key_p0 py_float [] [?info @ tab # ''0.7 0.2 0.1''] =
      Inr (store [] ''A'' ''|BET,CHECK'' ?ps)"
    by (simp only: read_records.simps)
  from a b c d e r1 r2 show ?thesis by (intro conjI)
qed

section \<open>Rows and columns of the tables\<close>

text \<open>
  Claim C7: each returned table has the rows of its declared list, in that order
  (CHECK+FOLD, CHECK+CALLBET, CHECK+RAISE, BET+FOLD, BET+CALLRAISE for the first-to-act
  script; BET+CALLRAISE, BET+FOLD, CHECK and CALLBET, FOLD, RAISE for the responder's
  two tables), one array row per label and one entry per column. Its columns are
  exactly the cards of that player's index, each once, in the order of their positions
  in \<^verbatim>\<open>"AKQJT98765432"\<close>.
\<close>

theorem table_rows_and_columns:
  "(strategies_p0 flt lines = Inr strategies \<and> parse_strategy_file_p0 flt lines = Inr df \<longrightarrow>
      df_index df = [''CHECK+FOLD'', ''CHECK+CALLBET'', ''CHECK+RAISE'', ''BET+FOLD'', ''BET+CALLRAISE'']
      \<and> length (df_data df) = 5
      \<and> (\<forall>row \<in> set (df_data df). length row = length (df_columns df))
      \<and> set (df_columns df) = fst ` set strategies \<and> distinct (df_columns df)
      \<and> (\<exists>ranks. map (str_index card_order) (df_columns df) = map Inr ranks \<and> sorted ranks))
   \<and> (strategies_p1 flt lines = Inr strategies
        \<and> parse_strategy_file_p1 flt lines = Inr (df_checked_to, df_bet_into) \<longrightarrow>
      df_index df_checked_to = [''BET+CALLRAISE'', ''BET+FOLD'', ''CHECK'']
      \<and> df_index df_bet_into = [''CALLBET'', ''FOLD'', ''RAISE'']
      \<and> length (df_data df_checked_to) = 3 \<and> length (df_data df_bet_into) = 3
      \<and> (\<forall>row \<in> set (df_data df_checked_to). length row = length (df_columns df_checked_to))
      \<and> (\<forall>row \<in> set (df_data df_bet_into). length row = length (df_columns df_bet_into))
      \<and> df_columns df_bet_into = df_columns df_checked_to
      \<and> set (df_columns df_checked_to) = fst ` set strategies
      \<and> distinct (df_columns df_checked_to)
      \<and> (\<exists>ranks. map (str_index card_order) (df_columns df_checked_to) = map Inr ranks
            \<and> sorted ranks))"
proof (rule conjI; rule impI; elim conjE)
  assume s: "strategies_p0 flt lines = Inr strategies"
    and p: "parse_strategy_file_p0 flt lines = Inr df"
  from s p have "table_p0 strategies = Inr df" by (rule parse_p0_table)
  then obtain cards cols where
    cards: "sorted_cards strategies = Inr cards" and
    cols: "map_err (\<lambda>c. and_then (card_data_of strategies c) column_p0) cards = Inr cols" and
    df: "df = \<lparr>df_columns = cards, df_index = index_p0, df_data = rows_of 5 cols\<rparr>"
    by (auto simp: table_p0_def and_then_eq_Inr)
  from cols have len: "length cols = length cards"
    by (auto dest!: map_err_Inr_all2 list_all2_lengthD)
  from s have "distinct (map fst strategies)"
    unfolding strategies_p0_def by (rule read_records_distinct)
  with cards have props: "set cards = fst ` set strategies \<and> distinct cards
     \<and> (\<exists>ranks. map (str_index card_order) cards = map Inr ranks \<and> sorted ranks)"
    by (rule sorted_cards_props)
  show "df_index df = [''CHECK+FOLD'', ''CHECK+CALLBET'', ''CHECK+RAISE'', ''BET+FOLD'', ''BET+CALLRAISE'']
      \<and> length (df_data df) = 5
      \<and> (\<forall>row \<in> set (df_data df). length row = length (df_columns df))
      \<and> set (df_columns df) = fst ` set strategies \<and> distinct (df_columns df)
      \<and> (\<exists>ranks. map (str_index card_order) (df_columns df) = map Inr ranks \<and> sorted ranks)"
    using props rows_of_shape [of 5 cols] len by (simp add: df index_p0_def)
next
  assume s: "strategies_p1 flt lines = Inr strategies"
    and p: "parse_strategy_file_p1 flt lines = Inr (df_checked_to, df_bet_into)"
  from s p have "tables_p1 strategies = Inr (df_checked_to, df_bet_into)" by (rule parse_p1_tables)
  then obtain cards cols where
    cards: "sorted_cards strategies = Inr cards" and
    cols: "map_err (\<lambda>c. and_then (card_data_of strategies c) columns_p1) cards = Inr cols" and
    df1: "df_checked_to = \<lparr>df_columns = cards, df_index = index_checked_to,
            df_data = rows_of 3 (map fst cols)\<rparr>" and
    df2: "df_bet_into = \<lparr>df_columns = cards, df_index = index_bet_into,
            df_data = rows_of 3 (map snd cols)\<rparr>"
    by (auto simp: tables_p1_def and_then_eq_Inr)
  from cols have len: "length cols = length cards"
    by (auto dest!: map_err_Inr_all2 list_all2_lengthD)
  from s have "distinct (map fst strategies)"
    unfolding strategies_p1_def by (rule read_records_distinct)
  with cards have props: "set cards = fst ` set strategies \<and> distinct cards
     \<and> (\<exists>ranks. map (str_index card_order) cards = map Inr ranks \<and> sorted ranks)"
    by (rule sorted_cards_props)
  show "df_index df_checked_to = [''BET+CALLRAISE'', ''BET+FOLD'', ''CHECK'']
      \<and> df_index df_bet_into = [''CALLBET'', ''FOLD'', ''RAISE'']
      \<and> length (df_data df_checked_to) = 3 \<and> length (df_data df_bet_into) = 3
      \<and> (\<forall>row \<in> set (df_data df_checked_to). length row = length (df_columns df_checked_to))
      \<and> (\<forall>row \<in> set (df_data df_bet_into). length row = length (df_columns df_bet_into))
      \<and> df_columns df_bet_into = df_columns df_checked_to
      \<and> set (df_columns df_checked_to) = fst ` set strategies
      \<and> distinct (df_columns df_checked_to)
      \<and> (\<exists>ranks. map (str_index card_order) (df_columns df_checked_to) = map Inr ranks
            \<and> sorted ranks)"
    using props rows_of_shape [of 3 "map fst cols"] rows_of_shape [of 3 "map snd cols"] len
    by (simp add: df1 df2 index_checked_to_def index_bet_into_def)
qed

theorem table_rows_and_columns_witness:
  "strategies_p0 py_float three_cards_dump_p0 =
     Inr [(''2'', [(''|BET,CHECK'', [Fin (1 / 2), Fin (1 / 2)])]),
          (''A'', [(''|BET,CHECK'', [Fin (7 / 10), Fin (3 / 10)])]),
          (''T'', [(''|BET,CHECK'', [Fin 0, Fin 1])])]
   \<and> (\<exists>df. parse_strategy_file_p0 py_float three_cards_dump_p0 = Inr df
         \<and> df_columns df = [''A'', ''T'', ''2'']
         \<and> df_index df = [''CHECK+FOLD'', ''CHECK+CALLBET'', ''CHECK+RAISE'', ''BET+FOLD'',
                             ''BET+CALLRAISE'']
         \<and> length (df_data df) = 5 \<and> distinct (df_columns df)
         \<and> (\<exists>ranks. map (str_index card_order) (df_columns df) = map Inr ranks \<and> sorted ranks))
   \<and> strategies_p1 py_float three_cards_dump_p1 =
     Inr [(''2'', [(''CHECK|BET,CHECK'', [Fin (1 / 2), Fin (1 / 2)])]),
          (''A'', [(''CHECK|BET,CHECK'', [Fin (7 / 10), Fin (3 / 10)])]),
          (''T'', [(''BET|CALLBET,FOLD,RAISE'', [Fin 0, Fin 1, Fin 0])])]
   \<and> (\<exists>df1 df2. parse_strategy_file_p1 py_float three_cards_dump_p1 = Inr (df1, df2)
         \<and> df_columns df1 = [''A'', ''T'', ''2''] \<and> df_columns df2 = [''A'', ''T'', ''2'']
         \<and> df_index df1 = [''BET+CALLRAISE'', ''BET+FOLD'', ''CHECK'']
         \<and> df_index df2 = [''CALLBET'', ''FOLD'', ''RAISE'']
         \<and> length (df_data df1) = 3 \<and> length (df_data df2) = 3 \<and> distinct (df_columns df1)
         \<and> (\<exists>ranks. map (str_index card_order) (df_columns df1) = map Inr ranks \<and> sorted ranks))"
proof -
  let ?s0 = "[(''2'', [(''|BET,CHECK'', [Fin (1 / 2), Fin (1 / 2)])]),
          (''A'', [(''|BET,CHECK'', [Fin (7 / 10), Fin (3 / 10)])]),
          (''T'', [(''|BET,CHECK'', [Fin 0, Fin 1])])]"
  let ?df0 = "\<lparr>df_columns = [''A'', ''T'', ''2''], df_index = index_p0,
        df_data = [[Fin 0, Fin 0, Fin 0], [Fin 0, Fin 0, Fin 0], [Fin 0, Fin 0, Fin 0],
                   [Fin 0, Fin 0, Fin 0], [Fin 0, Fin 0, Fin 0]]\<rparr>"
  let ?s1 = "[(''2'', [(''CHECK|BET,CHECK'', [Fin (1 / 2), Fin (1 / 2)])]),
          (''A'', [(''CHECK|BET,CHECK'', [Fin (7 / 10), Fin (3 / 10)])]),
          (''T'', [(''BET|CALLBET,FOLD,RAISE'', [Fin 0, Fin 1, Fin 0])])]"
  let ?df1 = "\<lparr>df_columns = [''A'', ''T'', ''2''], df_index = index_checked_to,
         df_data = [[Fin 0, Fin 0, Fin 0], [Fin (7 / 10), Fin 0, Fin (1 / 2)],
                    [Fin (3 / 10), Fin 1, Fin (1 / 2)]]\<rparr>"
  let ?df2 = "\<lparr>df_columns = [''A'', ''T'', ''2''], df_index = index_bet_into,
         df_data = [[Fin 0, Fin 0, Fin 0], [Fin 0, Fin 1, Fin 0], [Fin 0, Fin 0, Fin 0]]\<rparr>"
  have s0: "strategies_p0 py_float three_cards_dump_p0 = Inr ?s0" by code_simp
  have p0: "parse_strategy_file_p0 py_float three_cards_dump_p0 = Inr ?df0" by code_simp
  have s1: "strategies_p1 py_float three_cards_dump_p1 = Inr ?s1" by code_simp
  have p1: "parse_strategy_file_p1 py_float three_cards_dump_p1 = Inr (?df1, ?df2)" by code_simp
  note t0 = table_rows_and_columns [of py_float three_cards_dump_p0 ?s0 ?df0, THEN conjunct1]
  note t1 = table_rows_and_columns [of py_float three_cards_dump_p1 ?s1 _ ?df1 ?df2, THEN conjunct2]
  from t0 s0 p0 have c0: "df_index ?df0 = [''CHECK+FOLD'', ''CHECK+CALLBET'', ''CHECK+RAISE'',
        ''BET+FOLD'', ''BET+CALLRAISE'']
      \<and> length (df_data ?df0) = 5 \<and> distinct (df_columns ?df0)
      \<and> (\<exists>ranks. map (str_index card_order) (df_columns ?df0) = map Inr ranks \<and> sorted ranks)"
    by blast
  from t1 s1 p1 have c1: "df_index ?df1 = [''BET+CALLRAISE'', ''BET+FOLD'', ''CHECK'']
      \<and> df_index ?df2 = [''CALLBET'', ''FOLD'', ''RAISE'']
      \<and> length (df_data ?df1) = 3 \<and> length (df_data ?df2) = 3 \<and> distinct (df_columns ?df1)
      \<and> (\<exists>ranks. map (str_index card_order) (df_columns ?df1) = map Inr ranks \<and> sorted ranks)"
    by blast
  have e0: "\<exists>df. parse_strategy_file_p0 py_float three_cards_dump_p0 = Inr df
         \<and> df_columns df = [''A'', ''T'', ''2'']
         \<and> df_index df = [''CHECK+FOLD'', ''CHECK+CALLBET'', ''CHECK+RAISE'', ''BET+FOLD'',
                             ''BET+CALLRAISE'']
         \<and> length (df_data df) = 5 \<and> distinct (df_columns df)
         \<and> (\<exists>ranks. map (str_index card_order) (df_columns df) = map Inr ranks \<and> sorted ranks)"
    using p0 c0 by (intro exI [of _ ?df0]) simp
  have e1: "\<exists>df1 df2. parse_strategy_file_p1 py_float three_cards_dump_p1 = Inr (df1, df2)
         \<and> df_columns df1 = [''A'', ''T'', ''2''] \<and> df_columns df2 = [''A'', ''T'', ''2'']
         \<and> df_index df1 = [''BET+CALLRAISE'', ''BET+FOLD'', ''CHECK'']
         \<and> df_index df2 = [''CALLBET'', ''FOLD'', ''RAISE'']
         \<and> length (df_data df1) = 3 \<and> length (df_data df2) = 3 \<and> distinct (df_columns df1)
         \<and> (\<exists>ranks. map (str_index card_order) (df_columns df1) = map Inr ranks \<and> sorted ranks)"
    using p1 c1 by (intro exI [of _ ?df1] exI [of _ ?df2]) simp
  from s0 e0 s1 e1 show ?thesis by (intro conjI)
qed

section \<open>Non-negative entries\<close>

text \<open>
  The tokens \<^verbatim>\<open>0\<close> and \<^verbatim>\<open>inf\<close> are both floats that satisfy \<^verbatim>\<open>x >= 0\<close>. With the
  root record \<^verbatim>\<open>0 inf\<close> and no record after CHECK, BET, the check probability is
  infinite and is multiplied with the zeros of the default vector: the three CHECK rows
  of the table are NaN, which is not non-negative, against claim C10.
\<close>

theorem infinite_probability_gives_nan:
  "map (prob_tokens ''[Player: 0'') (player_lines ''PLAYER: 0'' False infinity_dump_p0) =
     [[''0'', ''inf'']]
   \<and> py_float ''0'' = Some (Fin 0) \<and> fnonneg (Fin 0)
   \<and> py_float ''inf'' = Some PInf \<and> fnonneg PInf
   \<and> strategies_p0 py_float infinity_dump_p0 = Inr [(''A'', [(''|BET,CHECK'', [Fin 0, PInf])])]
   \<and> parse_strategy_file_p0 py_float infinity_dump_p0 =
     Inr \<lparr>df_columns = [''A''], df_index = index_p0,
          df_data = [[NaN], [NaN], [NaN], [Fin 0], [Fin 0]]\<rparr>
   \<and> \<not> fnonneg NaN"
  by code_simp

text \<open>
  Claim C10, amended: when a table is returned and every probability token of the
  player's record lines is read as a finite non-negative float, every entry of every
  returned table is non-negative.
\<close>

theorem finite_nonneg_tokens_give_nonneg_tables:
  "((\<forall>l \<in> set (player_lines ''PLAYER: 0'' False lines).
       \<forall>t \<in> set (prob_tokens ''[Player: 0'' l). \<exists>x. flt t = Some x \<and> finite_nonneg x)
     \<and> parse_strategy_file_p0 flt lines = Inr df
     \<longrightarrow> (\<forall>row \<in> set (df_data df). \<forall>x \<in> set row. fnonneg x))
   \<and> ((\<forall>l \<in> set (player_lines ''PLAYER: 1'' False lines).
       \<forall>t \<in> set (prob_tokens ''[Player: 1'' l). \<exists>x. flt t = Some x \<and> finite_nonneg x)
     \<and> parse_strategy_file_p1 flt lines = Inr (df_checked_to, df_bet_into)
     \<longrightarrow> (\<forall>row \<in> set (df_data df_checked_to). \<forall>x \<in> set row. fnonneg x)
       \<and> (\<forall>row \<in> set (df_data df_bet_into). \<forall>x \<in> set row. fnonneg x))"
proof (rule conjI; rule impI; elim conjE)
  assume tok: "\<forall>l \<in> set (player_lines ''PLAYER: 0'' False lines).
       \<forall>t \<in> set (prob_tokens ''[Player: 0'' l). \<exists>x. flt t = Some x \<and> finite_nonneg x"
    and p: "parse_strategy_file_p0 flt lines = Inr df"
  from p obtain s where s: "strategies_p0 flt lines = Inr s" and t: "table_p0 s = Inr df"
    by (auto simp: parse_strategy_file_p0_def and_then_eq_Inr)
  from s tok have ok: "index_ok s"
    unfolding strategies_p0_def by (rule read_records_index_ok)
  from t obtain cards cols where
    cols: "map_err (\<lambda>c. and_then (card_data_of s c) column_p0) cards = Inr cols" and
    df: "df = \<lparr>df_columns = cards, df_index = index_p0, df_data = rows_of 5 cols\<rparr>"
    by (auto simp: table_p0_def and_then_eq_Inr)
  from cols have all2: "list_all2 (\<lambda>c y. and_then (card_data_of s c) column_p0 = Inr y) cards cols"
    by (rule map_err_Inr_all2)
  have col_ok: "length col = 5 \<and> (\<forall>x \<in> set col. finite_nonneg x)" if "col \<in> set cols" for col
  proof -
    from that all2 obtain c where "and_then (card_data_of s c) column_p0 = Inr col"
      by (auto simp: list_all2_conv_all_nth in_set_conv_nth)
    then obtain d where d: "card_data_of s c = Inr d" "column_p0 d = Inr col"
      by (auto simp: and_then_eq_Inr)
    from ok d(1) have "vectors_ok d" by (rule card_data_ok)
    with d(2) have "\<forall>x \<in> set col. finite_nonneg x" by (rule column_p0_ok)
    moreover from d(2) have "length col = 5" by (rule column_p0_length)
    ultimately show ?thesis by simp
  qed
  show "\<forall>row \<in> set (df_data df). \<forall>x \<in> set row. fnonneg x"
  proof (intro ballI)
    fix row x
    assume "row \<in> set (df_data df)" and x: "x \<in> set row"
    then have "row \<in> set (rows_of 5 cols)" by (simp add: df)
    from this x have "\<exists>col \<in> set cols. x \<in> set col"
      by (rule rows_of_entries) (simp add: col_ok)
    with col_ok have "finite_nonneg x" by blast
    then show "fnonneg x" by (rule finite_nonneg_fnonneg)
  qed
next
  assume tok: "\<forall>l \<in> set (player_lines ''PLAYER: 1'' False lines).
       \<forall>t \<in> set (prob_tokens ''[Player: 1'' l). \<exists>x. flt t = Some x \<and> finite_nonneg x"
    and p: "parse_strategy_file_p1 flt lines = Inr (df_checked_to, df_bet_into)"
  from p obtain s where s: "strategies_p1 flt lines = Inr s"
    and t: "tables_p1 s = Inr (df_checked_to, df_bet_into)"
    by (auto simp: parse_strategy_file_p1_def and_then_eq_Inr)
  from s tok have ok: "index_ok s"
    unfolding strategies_p1_def by (rule read_records_index_ok)
  from t obtain cards cols where
    cols: "map_err (\<lambda>c. and_then (card_data_of s c) columns_p1) cards = Inr cols" and
    df1: "df_checked_to = \<lparr>df_columns = cards, df_index = index_checked_to,
            df_data = rows_of 3 (map fst cols)\<rparr>" and
    df2: "df_bet_into = \<lparr>df_columns = cards, df_index = index_bet_into,
            df_data = rows_of 3 (map snd cols)\<rparr>"
    by (auto simp: tables_p1_def and_then_eq_Inr)
  from cols have all2: "list_all2 (\<lambda>c y. and_then (card_data_of s c) columns_p1 = Inr y) cards cols"
    by (rule map_err_Inr_all2)
  have col_ok: "length (fst col) = 3 \<and> (\<forall>x \<in> set (fst col). finite_nonneg x)
      \<and> length (snd col) = 3 \<and> (\<forall>x \<in> set (snd col). finite_nonneg x)"
    if "col \<in> set cols" for col
  proof -
    from that all2 obtain c where "and_then (card_data_of s c) columns_p1 = Inr col"
      by (auto simp: list_all2_conv_all_nth in_set_conv_nth)
    then obtain d where d: "card_data_of s c = Inr d" "columns_p1 d = Inr col"
      by (auto simp: and_then_eq_Inr)
    from d(2) have c1: "column_checked_to d = Inr (fst col)"
      and c2: "column_bet_into d = Inr (snd col)"
      by (cases col; auto simp: columns_p1_def and_then_eq_Inr)+
    from ok d(1) have v: "vectors_ok d" by (rule card_data_ok)
    from c1 v have "\<forall>x \<in> set (fst col). finite_nonneg x" by (rule column_checked_to_ok)
    moreover from c2 v have "\<forall>x \<in> set (snd col). finite_nonneg x" by (rule column_bet_into_ok)
    moreover from c1 have "length (fst col) = 3" by (rule column_checked_to_length)
    moreover from c2 have "length (snd col) = 3" by (rule column_bet_into_length)
    ultimately show ?thesis by simp
  qed
  have "\<forall>row \<in> set (df_data df_checked_to). \<forall>x \<in> set row. fnonneg x"
  proof (intro ballI)
    fix row x
    assume "row \<in> set (df_data df_checked_to)" and x: "x \<in> set row"
    then have "row \<in> set (rows_of 3 (map fst cols))" by (simp add: df1)
    from this x have "\<exists>col \<in> set (map fst cols). x \<in> set col"
      by (rule rows_of_entries) (auto simp: col_ok)
    with col_ok have "finite_nonneg x" by auto
    then show "fnonneg x" by (rule finite_nonneg_fnonneg)
  qed
  moreover have "\<forall>row \<in> set (df_data df_bet_into). \<forall>x \<in> set row. fnonneg x"
  proof (intro ballI)
    fix row x
    assume "row \<in> set (df_data df_bet_into)" and x: "x \<in> set row"
    then have "row \<in> set (rows_of 3 (map snd cols))" by (simp add: df2)
    from this x have "\<exists>col \<in> set (map snd cols). x \<in> set col"
      by (rule rows_of_entries) (auto simp: col_ok)
    with col_ok have "finite_nonneg x" by auto
    then show "fnonneg x" by (rule finite_nonneg_fnonneg)
  qed
  ultimately show "(\<forall>row \<in> set (df_data df_checked_to). \<forall>x \<in> set row. fnonneg x)
       \<and> (\<forall>row \<in> set (df_data df_bet_into). \<forall>x \<in> set row. fnonneg x)" by simp
qed

theorem finite_nonneg_tokens_give_nonneg_tables_witness:
  "list_all (\<lambda>l. list_all (\<lambda>t. case py_float t of Some x \<Rightarrow> finite_nonneg x | None \<Rightarrow> False)
                      (prob_tokens ''[Player: 0'' l))
            (player_lines ''PLAYER: 0'' False scenario_empty_history)
   \<and> (\<exists>df. parse_strategy_file_p0 py_float scenario_empty_history = Inr df
         \<and> df_data df = [[Fin (18 / 100)], [Fin (6 / 100)], [Fin (6 / 100)], [Fin (7 / 100)],
                          [Fin (63 / 100)]]
         \<and> list_all (list_all fnonneg) (df_data df))
   \<and> list_all (\<lambda>l. list_all (\<lambda>t. case py_float t of Some x \<Rightarrow> finite_nonneg x | None \<Rightarrow> False)
                      (prob_tokens ''[Player: 1'' l))
            (player_lines ''PLAYER: 1'' False responder_dump)
   \<and> (\<exists>df1 df2. parse_strategy_file_p1 py_float responder_dump = Inr (df1, df2)
         \<and> df_data df1 = [[Fin (1 / 10)], [Fin (3 / 10)], [Fin (3 / 5)]]
         \<and> df_data df2 = [[Fin (1 / 2)], [Fin (3 / 10)], [Fin (1 / 5)]]
         \<and> list_all (list_all fnonneg) (df_data df1)
         \<and> list_all (list_all fnonneg) (df_data df2))"
proof -
  let ?df0 = "\<lparr>df_columns = [''A''], df_index = index_p0,
          df_data = [[Fin (18 / 100)], [Fin (6 / 100)], [Fin (6 / 100)], [Fin (7 / 100)],
                     [Fin (63 / 100)]]\<rparr>"
  let ?df1 = "\<lparr>df_columns = [''K''], df_index = index_checked_to,
         df_data = [[Fin (1 / 10)], [Fin (3 / 10)], [Fin (3 / 5)]]\<rparr>"
  let ?df2 = "\<lparr>df_columns = [''K''], df_index = index_bet_into,
         df_data = [[Fin (1 / 2)], [Fin (3 / 10)], [Fin (1 / 5)]]\<rparr>"
  have h0: "list_all (\<lambda>l. list_all (\<lambda>t. case py_float t of Some x \<Rightarrow> finite_nonneg x | None \<Rightarrow> False)
                      (prob_tokens ''[Player: 0'' l))
            (player_lines ''PLAYER: 0'' False scenario_empty_history)"
    by code_simp
  have h1: "list_all (\<lambda>l. list_all (\<lambda>t. case py_float t of Some x \<Rightarrow> finite_nonneg x | None \<Rightarrow> False)
                      (prob_tokens ''[Player: 1'' l))
            (player_lines ''PLAYER: 1'' False responder_dump)"
    by code_simp
  have p0: "parse_strategy_file_p0 py_float scenario_empty_history = Inr ?df0" by code_simp
  have p1: "parse_strategy_file_p1 py_float responder_dump = Inr (?df1, ?df2)" by code_simp
  from h0 have t0: "\<forall>l \<in> set (player_lines ''PLAYER: 0'' False scenario_empty_history).
       \<forall>t \<in> set (prob_tokens ''[Player: 0'' l). \<exists>x. py_float t = Some x \<and> finite_nonneg x"
    by (simp only: tokens_ok_iff) (simp only: list_all_iff)
  from h1 have t1: "\<forall>l \<in> set (player_lines ''PLAYER: 1'' False responder_dump).
       \<forall>t \<in> set (prob_tokens ''[Player: 1'' l). \<exists>x. py_float t = Some x \<and> finite_nonneg x"
    by (simp only: tokens_ok_iff) (simp only: list_all_iff)
  from finite_nonneg_tokens_give_nonneg_tables
         [of scenario_empty_history py_float ?df0, THEN conjunct1] t0 p0
  have r0: "\<forall>row \<in> set (df_data ?df0). \<forall>x \<in> set row. fnonneg x" by blast
  from finite_nonneg_tokens_give_nonneg_tables
         [of responder_dump py_float _ ?df1 ?df2, THEN conjunct2] t1 p1
  have r1: "(\<forall>row \<in> set (df_data ?df1). \<forall>x \<in> set row. fnonneg x)
       \<and> (\<forall>row \<in> set (df_data ?df2). \<forall>x \<in> set row. fnonneg x)" by blast
  from r0 have l0: "list_all (list_all fnonneg) (df_data ?df0)"
    by (rule all_entries_list_all)
  from r1 have l1: "list_all (list_all fnonneg) (df_data ?df1)"
    and l2: "list_all (list_all fnonneg) (df_data ?df2)"
    by (blast intro: all_entries_list_all)+
  have e0: "\<exists>df. parse_strategy_file_p0 py_float scenario_empty_history = Inr df
         \<and> df_data df = [[Fin (18 / 100)], [Fin (6 / 100)], [Fin (6 / 100)], [Fin (7 / 100)],
                          [Fin (63 / 100)]]
         \<and> list_all (list_all fnonneg) (df_data df)"
    using p0 l0 by (intro exI [of _ ?df0]) simp
  have e1: "\<exists>df1 df2. parse_strategy_file_p1 py_float responder_dump = Inr (df1, df2)
         \<and> df_data df1 = [[Fin (1 / 10)], [Fin (3 / 10)], [Fin (3 / 5)]]
         \<and> df_data df2 = [[Fin (1 / 2)], [Fin (3 / 10)], [Fin (1 / 5)]]
         \<and> list_all (list_all fnonneg) (df_data df1)
         \<and> list_all (list_all fnonneg) (df_data df2)"
    using p1 l1 l2 by (intro exI [of _ ?df1] exI [of _ ?df2]) simp
  from h0 e0 h1 e1 show ?thesis by (intro conjI)
qed

section \<open>Last write wins\<close>

text \<open>
  The cards \<^verbatim>\<open>A\<close> and \<^verbatim>\<open>AK\<close> have the same sort key, so the stable sort keeps them
  in the order in which they entered the dictionary. With the earlier record line of
  card A the columns are A, AK; without it they are AK, A: the earlier line has an
  effect on the output, against the last part of claim C8.
\<close>

theorem earlier_line_changes_column_order:
  "record_line ''[Player: 1'' key_p1 py_float
       (strip (''[Player: 1 Card: A, History: CHECK Actions: BET, CHECK]'' @ [tab] @ ''0.5 0.5'' @ [newline])) =
     Inr (Some (''A'', ''CHECK|BET,CHECK'', [Fin (1 / 2), Fin (1 / 2)]))
   \<and> record_line ''[Player: 1'' key_p1 py_float
       (strip (''[Player: 1 Card: A, History: CHECK Actions: BET, CHECK]'' @ [tab] @ ''0.7 0.3'' @ [newline])) =
     Inr (Some (''A'', ''CHECK|BET,CHECK'', [Fin (7 / 10), Fin (3 / 10)]))
   \<and> str_index card_order ''A'' = Inr 0 \<and> str_index card_order ''AK'' = Inr 0
   \<and> parse_strategy_file_p1 py_float two_letter_card_dump_p1 =
     Inr (\<lparr>df_columns = [''A'', ''AK''], df_index = index_checked_to,
           df_data = [[Fin 0, Fin 0], [Fin (7 / 10), Fin (1 / 10)], [Fin (3 / 10), Fin (9 / 10)]]\<rparr>,
          \<lparr>df_columns = [''A'', ''AK''], df_index = index_bet_into,
           df_data = [[Fin 0, Fin 0], [Fin 0, Fin 0], [Fin 0, Fin 0]]\<rparr>)
   \<and> parse_strategy_file_p1 py_float two_letter_card_dump_short_p1 =
     Inr (\<lparr>df_columns = [''AK'', ''A''], df_index = index_checked_to,
           df_data = [[Fin 0, Fin 0], [Fin (1 / 10), Fin (7 / 10)], [Fin (9 / 10), Fin (3 / 10)]]\<rparr>,
          \<lparr>df_columns = [''AK'', ''A''], df_index = index_bet_into,
           df_data = [[Fin 0, Fin 0], [Fin 0, Fin 0], [Fin 0, Fin 0]]\<rparr>)
   \<and> parse_strategy_file_p1 py_float two_letter_card_dump_p1 \<noteq>
     parse_strategy_file_p1 py_float two_letter_card_dump_short_p1"
  by code_simp

text \<open>
  Claim C8, amended: the index holds at most one vector per card and key. When two
  record lines inside the player's sections yield the same card and key, removing the
  earlier one does not change the outcome of reading the records (the same exception, or
  an index with the same cards and the same vector under every card and key); the vector
  stored under that card and key is the one of the later line, unless a line after it
  writes the same card and key again; and when every card of the index is one of the 13
  ranks, the returned tables are the same with and without the earlier line.
\<close>

theorem later_record_line_wins:
  "(in_player_after ''PLAYER: 0'' False pre
      \<and> in_player_after ''PLAYER: 0'' False (pre @ earlier # mid)
      \<and> record_line ''[Player: 0'' key_p0 flt (strip earlier) = Inr (Some (crd, k, old_probs))
      \<and> record_line ''[Player: 0'' key_p0 flt (strip later) = Inr (Some (crd, k, new_probs))
     \<longrightarrow> ((\<exists>e. strategies_p0 flt (pre @ earlier # mid @ later # post) = Inl e
              \<and> strategies_p0 flt (pre @ mid @ later # post) = Inl e)
          \<or> (\<exists>s s'. strategies_p0 flt (pre @ earlier # mid @ later # post) = Inr s
              \<and> strategies_p0 flt (pre @ mid @ later # post) = Inr s' \<and> same_index s s'))
        \<and> (\<forall>s. strategies_p0 flt (pre @ earlier # mid @ later # post) = Inr s
               \<and> (\<forall>l \<in> set (player_lines ''PLAYER: 0'' True post).
                     \<forall>v. record_line ''[Player: 0'' key_p0 flt l \<noteq> Inr (Some (crd, k, v)))
             \<longrightarrow> vector_at s crd k = Some new_probs)
        \<and> ((\<forall>s. strategies_p0 flt (pre @ earlier # mid @ later # post) = Inr s
                \<longrightarrow> fst ` set s \<subseteq> set rank_cards)
           \<longrightarrow> parse_strategy_file_p0 flt (pre @ earlier # mid @ later # post) =
               parse_strategy_file_p0 flt (pre @ mid @ later # post)))
   \<and> (in_player_after ''PLAYER: 1'' False pre
      \<and> in_player_after ''PLAYER: 1'' False (pre @ earlier # mid)
      \<and> record_line ''[Player: 1'' key_p1 flt (strip earlier) = Inr (Some (crd, k, old_probs))
      \<and> record_line ''[Player: 1'' key_p1 flt (strip later) = Inr (Some (crd, k, new_probs))
     \<longrightarrow> ((\<exists>e. strategies_p1 flt (pre @ earlier # mid @ later # post) = Inl e
              \<and> strategies_p1 flt (pre @ mid @ later # post) = Inl e)
          \<or> (\<exists>s s'. strategies_p1 flt (pre @ earlier # mid @ later # post) = Inr s
              \<and> strategies_p1 flt (pre @ mid @ later # post) = Inr s' \<and> same_index s s'))
        \<and> (\<forall>s. strategies_p1 flt (pre @ earlier # mid @ later # post) = Inr s
               \<and> (\<forall>l \<in> set (player_lines ''PLAYER: 1'' True post).
                     \<forall>v. record_line ''[Player: 1'' key_p1 flt l \<noteq> Inr (Some (crd, k, v)))
             \<longrightarrow> vector_at s crd k = Some new_probs)
        \<and> ((\<forall>s. strategies_p1 flt (pre @ earlier # mid @ later # post) = Inr s
                \<longrightarrow> fst ` set s \<subseteq> set rank_cards)
           \<longrightarrow> parse_strategy_file_p1 flt (pre @ earlier # mid @ later # post) =
               parse_strategy_file_p1 flt (pre @ mid @ later # post)))"
proof (rule conjI; rule impI; elim conjE)
  assume h: "in_player_after ''PLAYER: 0'' False pre"
    "in_player_after ''PLAYER: 0'' False (pre @ earlier # mid)"
    "record_line ''[Player: 0'' key_p0 flt (strip earlier) = Inr (Some (crd, k, old_probs))"
    "record_line ''[Player: 0'' key_p0 flt (strip later) = Inr (Some (crd, k, new_probs))"
  have tag: "''[Player: 0'' \<noteq> []" "\<not> startswith ''PLAYER: 0'' ''[Player: 0''"
    "\<not> startswith ''END'' ''[Player: 0''"
    by (simp_all add: startswith_def)
  show "((\<exists>e. strategies_p0 flt (pre @ earlier # mid @ later # post) = Inl e
              \<and> strategies_p0 flt (pre @ mid @ later # post) = Inl e)
          \<or> (\<exists>s s'. strategies_p0 flt (pre @ earlier # mid @ later # post) = Inr s
              \<and> strategies_p0 flt (pre @ mid @ later # post) = Inr s' \<and> same_index s s'))
        \<and> (\<forall>s. strategies_p0 flt (pre @ earlier # mid @ later # post) = Inr s
               \<and> (\<forall>l \<in> set (player_lines ''PLAYER: 0'' True post).
                     \<forall>v. record_line ''[Player: 0'' key_p0 flt l \<noteq> Inr (Some (crd, k, v)))
             \<longrightarrow> vector_at s crd k = Some new_probs)
        \<and> ((\<forall>s. strategies_p0 flt (pre @ earlier # mid @ later # post) = Inr s
                \<longrightarrow> fst ` set s \<subseteq> set rank_cards)
           \<longrightarrow> parse_strategy_file_p0 flt (pre @ earlier # mid @ later # post) =
               parse_strategy_file_p0 flt (pre @ mid @ later # post))"
    unfolding strategies_p0_def parse_strategy_file_p0_def
    by (rule duplicate_line_generic [OF tag h table_p0_same])
next
  assume h: "in_player_after ''PLAYER: 1'' False pre"
    "in_player_after ''PLAYER: 1'' False (pre @ earlier # mid)"
    "record_line ''[Player: 1'' key_p1 flt (strip earlier) = Inr (Some (crd, k, old_probs))"
    "record_line ''[Player: 1'' key_p1 flt (strip later) = Inr (Some (crd, k, new_probs))"
  have tag: "''[Player: 1'' \<noteq> []" "\<not> startswith ''PLAYER: 1'' ''[Player: 1''"
    "\<not> startswith ''END'' ''[Player: 1''"
    by (simp_all add: startswith_def)
  show "((\<exists>e. strategies_p1 flt (pre @ earlier # mid @ later # post) = Inl e
              \<and> strategies_p1 flt (pre @ mid @ later # post) = Inl e)
          \<or> (\<exists>s s'. strategies_p1 flt (pre @ earlier # mid @ later # post) = Inr s
              \<and> strategies_p1 flt (pre @ mid @ later # post) = Inr s' \<and> same_index s s'))
        \<and> (\<forall>s. strategies_p1 flt (pre @ earlier # mid @ later # post) = Inr s
               \<and> (\<forall>l \<in> set (player_lines ''PLAYER: 1'' True post).
                     \<forall>v. record_line ''[Player: 1'' key_p1 flt l \<noteq> Inr (Some (crd, k, v)))
             \<longrightarrow> vector_at s crd k = Some new_probs)
        \<and> ((\<forall>s. strategies_p1 flt (pre @ earlier # mid @ later # post) = Inr s
                \<longrightarrow> fst ` set s \<subseteq> set rank_cards)
           \<longrightarrow> parse_strategy_file_p1 flt (pre @ earlier # mid @ later # post) =
               parse_strategy_file_p1 flt (pre @ mid @ later # post))"
    unfolding strategies_p1_def parse_strategy_file_p1_def
    by (rule duplicate_line_generic [OF tag h tables_p1_same])
qed

theorem later_record_line_wins_witness:
  "in_player_after ''PLAYER: 0'' False [''PLAYER: 0'' @ [newline]]
   \<and> in_player_after ''PLAYER: 0'' False ([''PLAYER: 0'' @ [newline]] @ (''[Player: 0 Card: A, History:  Actions: BET, CHECK]'' @ [tab] @ ''0.5 0.5'' @ [newline]) # [''[Player: 0 Card: K, History:  Actions: BET, CHECK]'' @ [tab] @ ''0.1 0.9'' @ [newline]])
   \<and> record_line ''[Player: 0'' key_p0 py_float (strip (''[Player: 0 Card: A, History:  Actions: BET, CHECK]'' @ [tab] @ ''0.5 0.5'' @ [newline])) =
       Inr (Some (''A'', ''|BET,CHECK'', [Fin (1 / 2), Fin (1 / 2)]))
   \<and> record_line ''[Player: 0'' key_p0 py_float (strip (''[Player: 0 Card: A, History:  Actions: BET, CHECK]'' @ [tab] @ ''0.7 0.3'' @ [newline])) =
       Inr (Some (''A'', ''|BET,CHECK'', [Fin (7 / 10), Fin (3 / 10)]))
   \<and> strategies_p0 py_float duplicate_dump_p0 = Inr [(''A'', [(''|BET,CHECK'', [Fin (7 / 10), Fin (3 / 10)])]), (''K'', [(''|BET,CHECK'', [Fin (1 / 10), Fin (9 / 10)])])]
   \<and> vector_at [(''A'', [(''|BET,CHECK'', [Fin (7 / 10), Fin (3 / 10)])]), (''K'', [(''|BET,CHECK'', [Fin (1 / 10), Fin (9 / 10)])])] ''A'' ''|BET,CHECK'' = Some [Fin (7 / 10), Fin (3 / 10)]
   \<and> parse_strategy_file_p0 py_float duplicate_dump_p0 =
       parse_strategy_file_p0 py_float duplicate_dump_short_p0
   \<and> in_player_after ''PLAYER: 1'' False [''PLAYER: 1'' @ [newline]]
   \<and> in_player_after ''PLAYER: 1'' False ([''PLAYER: 1'' @ [newline]] @ (''[Player: 1 Card: A, History: CHECK Actions: BET, CHECK]'' @ [tab] @ ''0.5 0.5'' @ [newline]) # [''[Player: 1 Card: K, History: CHECK Actions: BET, CHECK]'' @ [tab] @ ''0.1 0.9'' @ [newline]])
   \<and> record_line ''[Player: 1'' key_p1 py_float (strip (''[Player: 1 Card: A, History: CHECK Actions: BET, CHECK]'' @ [tab] @ ''0.5 0.5'' @ [newline])) =
       Inr (Some (''A'', ''CHECK|BET,CHECK'', [Fin (1 / 2), Fin (1 / 2)]))
   \<and> record_line ''[Player: 1'' key_p1 py_float (strip (''[Player: 1 Card: A, History: CHECK Actions: BET, CHECK]'' @ [tab] @ ''0.7 0.3'' @ [newline])) =
       Inr (Some (''A'', ''CHECK|BET,CHECK'', [Fin (7 / 10), Fin (3 / 10)]))
   \<and> strategies_p1 py_float duplicate_dump_p1 = Inr [(''A'', [(''CHECK|BET,CHECK'', [Fin (7 / 10), Fin (3 / 10)])]), (''K'', [(''CHECK|BET,CHECK'', [Fin (1 / 10), Fin (9 / 10)])])]
   \<and> vector_at [(''A'', [(''CHECK|BET,CHECK'', [Fin (7 / 10), Fin (3 / 10)])]), (''K'', [(''CHECK|BET,CHECK'', [Fin (1 / 10), Fin (9 / 10)])])] ''A'' ''CHECK|BET,CHECK'' = Some [Fin (7 / 10), Fin (3 / 10)]
   \<and> parse_strategy_file_p1 py_float duplicate_dump_p1 =
       parse_strategy_file_p1 py_float duplicate_dump_short_p1"
proof -
  have c0: "in_player_after ''PLAYER: 0'' False [''PLAYER: 0'' @ [newline]]
     \<and> in_player_after ''PLAYER: 0'' False ([''PLAYER: 0'' @ [newline]] @ (''[Player: 0 Card: A, History:  Actions: BET, CHECK]'' @ [tab] @ ''0.5 0.5'' @ [newline]) # [''[Player: 0 Card: K, History:  Actions: BET, CHECK]'' @ [tab] @ ''0.1 0.9'' @ [newline]])
     \<and> record_line ''[Player: 0'' key_p0 py_float (strip (''[Player: 0 Card: A, History:  Actions: BET, CHECK]'' @ [tab] @ ''0.5 0.5'' @ [newline])) =
         Inr (Some (''A'', ''|BET,CHECK'', [Fin (1 / 2), Fin (1 / 2)]))
     \<and> record_line ''[Player: 0'' key_p0 py_float (strip (''[Player: 0 Card: A, History:  Actions: BET, CHECK]'' @ [tab] @ ''0.7 0.3'' @ [newline])) =
         Inr (Some (''A'', ''|BET,CHECK'', [Fin (7 / 10), Fin (3 / 10)]))
     \<and> strategies_p0 py_float duplicate_dump_p0 = Inr [(''A'', [(''|BET,CHECK'', [Fin (7 / 10), Fin (3 / 10)])]), (''K'', [(''|BET,CHECK'', [Fin (1 / 10), Fin (9 / 10)])])]
     \<and> vector_at [(''A'', [(''|BET,CHECK'', [Fin (7 / 10), Fin (3 / 10)])]), (''K'', [(''|BET,CHECK'', [Fin (1 / 10), Fin (9 / 10)])])] ''A'' ''|BET,CHECK'' = Some [Fin (7 / 10), Fin (3 / 10)]
     \<and> parse_strategy_file_p0 py_float duplicate_dump_p0 =
         parse_strategy_file_p0 py_float duplicate_dump_short_p0"
  proof -
    let ?m = "''PLAYER: 0'' @ [newline]"
    let ?a1 = "''[Player: 0 Card: A, History:  Actions: BET, CHECK]'' @ [tab] @ ''0.5 0.5'' @ [newline]"
    let ?k = "''[Player: 0 Card: K, History:  Actions: BET, CHECK]'' @ [tab] @ ''0.1 0.9'' @ [newline]"
    let ?a2 = "''[Player: 0 Card: A, History:  Actions: BET, CHECK]'' @ [tab] @ ''0.7 0.3'' @ [newline]"
    let ?e = "''END'' @ [newline]"
    let ?S = "[(''A'', [(''|BET,CHECK'', [Fin (7 / 10), Fin (3 / 10)])]), (''K'', [(''|BET,CHECK'', [Fin (1 / 10), Fin (9 / 10)])])]"
    have h1: "in_player_after ''PLAYER: 0'' False [?m]" by code_simp
    have h2: "in_player_after ''PLAYER: 0'' False ([?m] @ ?a1 # [?k])" by code_simp
    have r1: "record_line ''[Player: 0'' key_p0 py_float (strip ?a1) =
        Inr (Some (''A'', ''|BET,CHECK'', [Fin (1 / 2), Fin (1 / 2)]))" by code_simp
    have r2: "record_line ''[Player: 0'' key_p0 py_float (strip ?a2) =
        Inr (Some (''A'', ''|BET,CHECK'', [Fin (7 / 10), Fin (3 / 10)]))" by code_simp
    have d: "duplicate_dump_p0 = [?m] @ ?a1 # [?k] @ ?a2 # [?e]"
      by (simp add: duplicate_dump_p0_def)
    have d': "duplicate_dump_short_p0 = [?m] @ [?k] @ ?a2 # [?e]"
      by (simp add: duplicate_dump_short_p0_def)
    have s: "strategies_p0 py_float duplicate_dump_p0 = Inr ?S" by code_simp
    have post: "player_lines ''PLAYER: 0'' True [?e] = []" by code_simp
    have "list_all (\<lambda>c. c \<in> set rank_cards) (map fst ?S)" by code_simp
    then have ranks: "fst ` set ?S \<subseteq> set rank_cards" by (simp only: list_all_iff set_map) blast
    from h1 h2 r1 r2 have hyps: "in_player_after ''PLAYER: 0'' False [?m]
        \<and> in_player_after ''PLAYER: 0'' False ([?m] @ ?a1 # [?k])
        \<and> record_line ''[Player: 0'' key_p0 py_float (strip ?a1) =
            Inr (Some (''A'', ''|BET,CHECK'', [Fin (1 / 2), Fin (1 / 2)]))
        \<and> record_line ''[Player: 0'' key_p0 py_float (strip ?a2) =
            Inr (Some (''A'', ''|BET,CHECK'', [Fin (7 / 10), Fin (3 / 10)]))"
      by (intro conjI)
    note t = later_record_line_wins [where pre = "[?m]" and earlier = ?a1 and mid = "[?k]"
        and later = ?a2 and post = "[?e]" and flt = py_float and crd = "''A''"
        and k = "''|BET,CHECK''" and old_probs = "[Fin (1 / 2), Fin (1 / 2)]"
        and new_probs = "[Fin (7 / 10), Fin (3 / 10)]", THEN conjunct1, THEN mp, OF hyps,
        folded d d']
    from t have t2: "\<forall>s. strategies_p0 py_float duplicate_dump_p0 = Inr s
               \<and> (\<forall>l \<in> set (player_lines ''PLAYER: 0'' True [?e]).
                     \<forall>v. record_line ''[Player: 0'' key_p0 py_float l \<noteq> Inr (Some (''A'', ''|BET,CHECK'', v)))
             \<longrightarrow> vector_at s ''A'' ''|BET,CHECK'' = Some [Fin (7 / 10), Fin (3 / 10)]"
      by (elim conjE)
    from t have t3: "(\<forall>s. strategies_p0 py_float duplicate_dump_p0 = Inr s
                \<longrightarrow> fst ` set s \<subseteq> set rank_cards)
           \<longrightarrow> parse_strategy_file_p0 py_float duplicate_dump_p0 =
               parse_strategy_file_p0 py_float duplicate_dump_short_p0"
      by (elim conjE)
    from t2 s post have v: "vector_at ?S ''A'' ''|BET,CHECK'' = Some [Fin (7 / 10), Fin (3 / 10)]"
      by simp
    from t3 s ranks have e: "parse_strategy_file_p0 py_float duplicate_dump_p0 =
        parse_strategy_file_p0 py_float duplicate_dump_short_p0"
      by simp
    from h1 h2 r1 r2 s v e show ?thesis by (intro conjI)
  qed
  have c1: "in_player_after ''PLAYER: 1'' False [''PLAYER: 1'' @ [newline]]
     \<and> in_player_after ''PLAYER: 1'' False ([''PLAYER: 1'' @ [newline]] @ (''[Player: 1 Card: A, History: CHECK Actions: BET, CHECK]'' @ [tab] @ ''0.5 0.5'' @ [newline]) # [''[Player: 1 Card: K, History: CHECK Actions: BET, CHECK]'' @ [tab] @ ''0.1 0.9'' @ [newline]])
     \<and> record_line ''[Player: 1'' key_p1 py_float (strip (''[Player: 1 Card: A, History: CHECK Actions: BET, CHECK]'' @ [tab] @ ''0.5 0.5'' @ [newline])) =
         Inr (Some (''A'', ''CHECK|BET,CHECK'', [Fin (1 / 2), Fin (1 / 2)]))
     \<and> record_line ''[Player: 1'' key_p1 py_float (strip (''[Player: 1 Card: A, History: CHECK Actions: BET, CHECK]'' @ [tab] @ ''0.7 0.3'' @ [newline])) =
         Inr (Some (''A'', ''CHECK|BET,CHECK'', [Fin (7 / 10), Fin (3 / 10)]))
     \<and> strategies_p1 py_float duplicate_dump_p1 = Inr [(''A'', [(''CHECK|BET,CHECK'', [Fin (7 / 10), Fin (3 / 10)])]), (''K'', [(''CHECK|BET,CHECK'', [Fin (1 / 10), Fin (9 / 10)])])]
     \<and> vector_at [(''A'', [(''CHECK|BET,CHECK'', [Fin (7 / 10), Fin (3 / 10)])]), (''K'', [(''CHECK|BET,CHECK'', [Fin (1 / 10), Fin (9 / 10)])])] ''A'' ''CHECK|BET,CHECK'' = Some [Fin (7 / 10), Fin (3 / 10)]
     \<and> parse_strategy_file_p1 py_float duplicate_dump_p1 =
         parse_strategy_file_p1 py_float duplicate_dump_short_p1"
  proof -
    let ?m = "''PLAYER: 1'' @ [newline]"
    let ?a1 = "''[Player: 1 Card: A, History: CHECK Actions: BET, CHECK]'' @ [tab] @ ''0.5 0.5'' @ [newline]"
    let ?k = "''[Player: 1 Card: K, History: CHECK Actions: BET, CHECK]'' @ [tab] @ ''0.1 0.9'' @ [newline]"
    let ?a2 = "''[Player: 1 Card: A, History: CHECK Actions: BET, CHECK]'' @ [tab] @ ''0.7 0.3'' @ [newline]"
    let ?e = "''END'' @ [newline]"
    let ?S = "[(''A'', [(''CHECK|BET,CHECK'', [Fin (7 / 10), Fin (3 / 10)])]), (''K'', [(''CHECK|BET,CHECK'', [Fin (1 / 10), Fin (9 / 10)])])]"
    have h1: "in_player_after ''PLAYER: 1'' False [?m]" by code_simp
    have h2: "in_player_after ''PLAYER: 1'' False ([?m] @ ?a1 # [?k])" by code_simp
    have r1: "record_line ''[Player: 1'' key_p1 py_float (strip ?a1) =
        Inr (Some (''A'', ''CHECK|BET,CHECK'', [Fin (1 / 2), Fin (1 / 2)]))" by code_simp
    have r2: "record_line ''[Player: 1'' key_p1 py_float (strip ?a2) =
        Inr (Some (''A'', ''CHECK|BET,CHECK'', [Fin (7 / 10), Fin (3 / 10)]))" by code_simp
    have d: "duplicate_dump_p1 = [?m] @ ?a1 # [?k] @ ?a2 # [?e]"
      by (simp add: duplicate_dump_p1_def)
    have d': "duplicate_dump_short_p1 = [?m] @ [?k] @ ?a2 # [?e]"
      by (simp add: duplicate_dump_short_p1_def)
    have s: "strategies_p1 py_float duplicate_dump_p1 = Inr ?S" by code_simp
    have post: "player_lines ''PLAYER: 1'' True [?e] = []" by code_simp
    have "list_all (\<lambda>c. c \<in> set rank_cards) (map fst ?S)" by code_simp
    then have ranks: "fst ` set ?S \<subseteq> set rank_cards" by (simp only: list_all_iff set_map) blast
    from h1 h2 r1 r2 have hyps: "in_player_after ''PLAYER: 1'' False [?m]
        \<and> in_player_after ''PLAYER: 1'' False ([?m] @ ?a1 # [?k])
        \<and> record_line ''[Player: 1'' key_p1 py_float (strip ?a1) =
            Inr (Some (''A'', ''CHECK|BET,CHECK'', [Fin (1 / 2), Fin (1 / 2)]))
        \<and> record_line ''[Player: 1'' key_p1 py_float (strip ?a2) =
            Inr (Some (''A'', ''CHECK|BET,CHECK'', [Fin (7 / 10), Fin (3 / 10)]))"
      by (intro conjI)
    note t = later_record_line_wins [where pre = "[?m]" and earlier = ?a1 and mid = "[?k]"
        and later = ?a2 and post = "[?e]" and flt = py_float and crd = "''A''"
        and k = "''CHECK|BET,CHECK''" and old_probs = "[Fin (1 / 2), Fin (1 / 2)]"
        and new_probs = "[Fin (7 / 10), Fin (3 / 10)]", THEN conjunct2, THEN mp, OF hyps,
        folded d d']
    from t have t2: "\<forall>s. strategies_p1 py_float duplicate_dump_p1 = Inr s
               \<and> (\<forall>l \<in> set (player_lines ''PLAYER: 1'' True [?e]).
                     \<forall>v. record_line ''[Player: 1'' key_p1 py_float l \<noteq> Inr (Some (''A'', ''CHECK|BET,CHECK'', v)))
             \<longrightarrow> vector_at s ''A'' ''CHECK|BET,CHECK'' = Some [Fin (7 / 10), Fin (3 / 10)]"
      by (elim conjE)
    from t have t3: "(\<forall>s. strategies_p1 py_float duplicate_dump_p1 = Inr s
                \<longrightarrow> fst ` set s \<subseteq> set rank_cards)
           \<longrightarrow> parse_strategy_file_p1 py_float duplicate_dump_p1 =
               parse_strategy_file_p1 py_float duplicate_dump_short_p1"
      by (elim conjE)
    from t2 s post have v: "vector_at ?S ''A'' ''CHECK|BET,CHECK'' = Some [Fin (7 / 10), Fin (3 / 10)]"
      by simp
    from t3 s ranks have e: "parse_strategy_file_p1 py_float duplicate_dump_p1 =
        parse_strategy_file_p1 py_float duplicate_dump_short_p1"
      by simp
    from h1 h2 r1 r2 s v e show ?thesis by (intro conjI)
  qed
  from c0 c1 show ?thesis
    by - (elim conjE, intro conjI; assumption)
qed

end
